theory Spec2Isabelle
  imports Main "HOL-Library.Option_ord"
begin

section \<open>Common vocabulary\<close>

text \<open>
  The model follows the Convex functions of \<^verbatim>\<open>convex/cards.ts\<close>,
  \<^verbatim>\<open>convex/transactions.ts\<close>, \<^verbatim>\<open>convex/apiKeys.ts\<close>, \<^verbatim>\<open>convex/http.ts\<close> and
  \<^verbatim>\<open>convex/webhooks.ts\<close>. A table is the list of its documents in insertion order, a
  document id is a natural number drawn from one counter, \<^verbatim>\<open>Date.now()\<close> is a
  parameter, and a thrown \<^verbatim>\<open>ConvexError\<close> is the left injection of a sum. Every function
  returns the store it leaves behind together with its outcome, so that "a failed call
  changes nothing" is a theorem about the code and not a convention of the model.
  Monetary amounts are integers (minor currency units), as the specification says.
\<close>

type_synonym id = nat

text \<open>\<^verbatim>\<open>lib/errors.ts\<close>: the error codes.\<close>

datatype ErrorCode =
    UNAUTHORIZED | FORBIDDEN | NOT_FOUND | VALIDATION_ERROR | CONFLICT | RATE_LIMITED
  | INSUFFICIENT_BALANCE | CARD_INACTIVE | CARD_EXPIRED | INVALID_AMOUNT
  | INVALID_API_KEY | API_KEY_REVOKED | PERMISSION_DENIED | INTERNAL_ERROR

text \<open>\<^verbatim>\<open>ctx.db.get(id)\<close>: the document with that id, if any.\<close>

definition db_get :: "('a \<Rightarrow> id) \<Rightarrow> 'a list \<Rightarrow> id \<Rightarrow> 'a option" where
  "db_get key tbl i = find (\<lambda>d. key d = i) tbl"

text \<open>\<^verbatim>\<open>ctx.db.patch(id, fields)\<close>: overwrite fields of the document with that id.\<close>

definition db_patch :: "('a \<Rightarrow> id) \<Rightarrow> 'a list \<Rightarrow> id \<Rightarrow> ('a \<Rightarrow> 'a) \<Rightarrow> 'a list" where
  "db_patch key tbl i f = map (\<lambda>d. if key d = i then f d else d) tbl"

text \<open>
  \<^verbatim>\<open>.unique()\<close> on an index query: no document, the one document, or an exception when
  several documents match.
\<close>

fun unique :: "'a list \<Rightarrow> ErrorCode + 'a option" where
  "unique [] = Inr None"
| "unique [x] = Inr (Some x)"
| "unique (x # y # zs) = Inl INTERNAL_ERROR"

section \<open>Cards and the ledger (cards.ts, transactions.ts)\<close>

datatype card_status = Active | Inactive | Suspended | Expired | Cancelled

datatype transaction_type = Load | Redeem | Transfer_in | Transfer_out | Adjust | Refund

datatype performer_type = User | Api_key | System

datatype redemption_method = Code | Card_number | Track_data | Qr | Manual

datatype member_role = Owner | Admin | Staff

text \<open>
  The fields of a card that the ledger reads or writes. The display-only fields
  (card number, plain code, pin, physical/digital, metadata) are left out.
\<close>

record card =
  card_id :: id
  merchantId :: id
  customerId :: "id option"
  codeHash :: string
  trackDataHash :: "string option"
  status :: card_status
  initialBalance :: int
  currentBalance :: int
  currency :: string
  expiresAt :: "int option"
  activatedAt :: "int option"
  lastUsedAt :: "int option"

text \<open>A ledger entry. The free-text fields (description, reference) are left out.\<close>

record txn =
  txn_id :: id
  txn_merchantId :: id
  cardId :: id
  txn_customerId :: "id option"
  txn_type :: transaction_type
  amount :: int
  balanceBefore :: int
  balanceAfter :: int
  txn_currency :: string
  performedBy :: id
  performedByType :: performer_type
  redemptionMethod :: "redemption_method option"
  linkedTransactionId :: "id option"

record merchant_settings =
  defaultCardExpDays :: "int option"
  maxCardBalance :: "int option"
  minLoadAmount :: "int option"
  maxLoadAmount :: "int option"
  settings_currency :: "string option"

record merchant =
  merchant_id :: id
  settings :: "merchant_settings option"

text \<open>
  What \<^verbatim>\<open>withMerchant\<close> (lib/middleware.ts) hands to a mutation: the signed-in
  user, the merchant document and the caller's role. The middleware only reads; its
  outcome (this context, or the error it throws) is a parameter of each mutation.
\<close>

record MerchantContext =
  user :: id
  merchant :: merchant
  memberRole :: member_role

record ledger =
  merchants :: "merchant list"
  cards :: "card list"
  transactions :: "txn list"
  nextId :: id

text \<open>\<^verbatim>\<open>lib/constants.ts\<close>.\<close>

definition DEFAULT_MAX_CARD_BALANCE :: int where "DEFAULT_MAX_CARD_BALANCE = 100000"

text \<open>\<^verbatim>\<open>merchant.settings?.field ?? dflt\<close>.\<close>

definition setting :: "merchant \<Rightarrow> (merchant_settings \<Rightarrow> 'a option) \<Rightarrow> 'a \<Rightarrow> 'a" where
  "setting m field dflt =
     (case settings m of
        None \<Rightarrow> dflt
      | Some st \<Rightarrow> (case field st of None \<Rightarrow> dflt | Some v \<Rightarrow> v))"

text \<open>
  \<^verbatim>\<open>validateCardUsable\<close>. The expiry test is \<^verbatim>\<open>card.expiresAt && card.expiresAt <= Date.now()\<close>:
  an absent timestamp and the timestamp 0 are both falsy.
\<close>

definition validateCardUsable :: "card \<Rightarrow> int \<Rightarrow> ErrorCode + unit" where
  "validateCardUsable c now =
     (if status c \<noteq> Active then Inl CARD_INACTIVE
      else (case expiresAt c of
              None \<Rightarrow> Inr ()
            | Some e \<Rightarrow> if e \<noteq> 0 \<and> e \<le> now then Inl CARD_EXPIRED else Inr ()))"

text \<open>
  The body shared by \<^verbatim>\<open>recordTransaction\<close> and \<^verbatim>\<open>recordApiTransaction\<close>: patch the
  card, insert the entry, read the entry back.
\<close>

definition insertTransaction ::
  "ledger \<Rightarrow> card \<Rightarrow> transaction_type \<Rightarrow> int \<Rightarrow> int \<Rightarrow> id \<Rightarrow> performer_type \<Rightarrow>
   redemption_method option \<Rightarrow> id option \<Rightarrow> int \<Rightarrow> txn \<times> ledger" where
  "insertTransaction s c ty amt newBalance by byType method linked now =
     (let s1 = s\<lparr>cards := db_patch card_id (cards s) (card_id c)
                   (\<lambda>d. d\<lparr>currentBalance := newBalance, lastUsedAt := Some now\<rparr>)\<rparr>;
          txnId = nextId s1;
          t = \<lparr>txn_id = txnId, txn_merchantId = merchantId c, cardId = card_id c,
               txn_customerId = customerId c, txn_type = ty, amount = amt,
               balanceBefore = currentBalance c, balanceAfter = newBalance,
               txn_currency = currency c, performedBy = by, performedByType = byType,
               redemptionMethod = method, linkedTransactionId = linked\<rparr>;
          s2 = s1\<lparr>transactions := transactions s1 @ [t], nextId := Suc txnId\<rparr>
      in (case db_get txn_id (transactions s2) txnId of
            Some t' \<Rightarrow> (t', s2)
          | None \<Rightarrow> (t, s2)))"

definition recordTransaction ::
  "ledger \<Rightarrow> card \<Rightarrow> transaction_type \<Rightarrow> int \<Rightarrow> int \<Rightarrow> MerchantContext \<Rightarrow>
   redemption_method option \<Rightarrow> id option \<Rightarrow> int \<Rightarrow> txn \<times> ledger" where
  "recordTransaction s c ty amt newBalance merchantContext method linked now =
     insertTransaction s c ty amt newBalance (user merchantContext) User method linked now"

definition recordApiTransaction ::
  "ledger \<Rightarrow> card \<Rightarrow> transaction_type \<Rightarrow> int \<Rightarrow> int \<Rightarrow> id \<Rightarrow>
   redemption_method option \<Rightarrow> id option \<Rightarrow> int \<Rightarrow> txn \<times> ledger" where
  "recordApiTransaction s c ty amt newBalance apiKeyId method linked now =
     insertTransaction s c ty amt newBalance apiKeyId Api_key method linked now"

type_synonym txn_result = "(ErrorCode + txn) \<times> ledger"




text \<open>
  The six redeem mutations (\<^verbatim>\<open>redeem\<close>, \<^verbatim>\<open>redeemByCode\<close>, \<^verbatim>\<open>redeemByTrackData\<close> and
  their \<^verbatim>\<open>api\<close> twins) differ in the lookup, the performer and the recorded method; from
  the null check of the card on they are the same statements, \<open>redeemTail\<close>.
\<close>

definition redeemTail ::
  "ledger \<Rightarrow> card option \<Rightarrow> id \<Rightarrow> int \<Rightarrow> id \<Rightarrow> performer_type \<Rightarrow> redemption_method \<Rightarrow> int
   \<Rightarrow> txn_result" where
  "redeemTail s found arg_merchantId arg_amount by byType method now =
     (case found of
        None \<Rightarrow> (Inl NOT_FOUND, s)
      | Some c \<Rightarrow>
     if merchantId c \<noteq> arg_merchantId then (Inl FORBIDDEN, s) else
     (case validateCardUsable c now of
        Inl e \<Rightarrow> (Inl e, s)
      | Inr _ \<Rightarrow>
     if arg_amount \<le> 0 then (Inl INVALID_AMOUNT, s) else
     if arg_amount > currentBalance c then (Inl INSUFFICIENT_BALANCE, s) else
     (case insertTransaction s c Redeem arg_amount (currentBalance c - arg_amount)
              by byType (Some method) None now of
        (t, s') \<Rightarrow> (Inr t, s'))))"

definition redeem ::
  "ledger \<Rightarrow> ErrorCode + MerchantContext \<Rightarrow> id \<Rightarrow> id \<Rightarrow> int \<Rightarrow> int \<Rightarrow> txn_result" where
  "redeem s auth arg_merchantId arg_cardId arg_amount now =
     (case auth of
        Inl e \<Rightarrow> (Inl e, s)
      | Inr merchantCtx \<Rightarrow>
          redeemTail s (db_get card_id (cards s) arg_cardId) arg_merchantId arg_amount
            (user merchantCtx) User Manual now)"

text \<open>The hash function of \<^verbatim>\<open>lib/crypto.ts\<close> is a parameter, \<open>sha256\<close>.\<close>

definition redeemByCode ::
  "(string \<Rightarrow> string) \<Rightarrow> ledger \<Rightarrow> ErrorCode + MerchantContext \<Rightarrow> id \<Rightarrow> string \<Rightarrow> int \<Rightarrow> int
   \<Rightarrow> txn_result" where
  "redeemByCode sha256 s auth arg_merchantId arg_code arg_amount now =
     (case auth of
        Inl e \<Rightarrow> (Inl e, s)
      | Inr merchantCtx \<Rightarrow>
     (case unique (filter (\<lambda>c. codeHash c = sha256 arg_code) (cards s)) of
        Inl e \<Rightarrow> (Inl e, s)
      | Inr found \<Rightarrow>
          redeemTail s found arg_merchantId arg_amount (user merchantCtx) User Code now))"

definition redeemByTrackData ::
  "(string \<Rightarrow> string) \<Rightarrow> ledger \<Rightarrow> ErrorCode + MerchantContext \<Rightarrow> id \<Rightarrow> string \<Rightarrow> int \<Rightarrow> int
   \<Rightarrow> txn_result" where
  "redeemByTrackData sha256 s auth arg_merchantId arg_trackData arg_amount now =
     (case auth of
        Inl e \<Rightarrow> (Inl e, s)
      | Inr merchantCtx \<Rightarrow>
     (case unique (filter (\<lambda>c. trackDataHash c = Some (sha256 arg_trackData)) (cards s)) of
        Inl e \<Rightarrow> (Inl e, s)
      | Inr found \<Rightarrow>
          redeemTail s found arg_merchantId arg_amount (user merchantCtx) User Track_data now))"

definition apiRedeem :: "ledger \<Rightarrow> id \<Rightarrow> id \<Rightarrow> int \<Rightarrow> id \<Rightarrow> int \<Rightarrow> txn_result" where
  "apiRedeem s arg_merchantId arg_cardId arg_amount arg_apiKeyId now =
     redeemTail s (db_get card_id (cards s) arg_cardId) arg_merchantId arg_amount
       arg_apiKeyId Api_key Manual now"

definition apiRedeemByCode ::
  "(string \<Rightarrow> string) \<Rightarrow> ledger \<Rightarrow> id \<Rightarrow> string \<Rightarrow> int \<Rightarrow> id \<Rightarrow> int \<Rightarrow> txn_result" where
  "apiRedeemByCode sha256 s arg_merchantId arg_code arg_amount arg_apiKeyId now =
     (case unique (filter (\<lambda>c. codeHash c = sha256 arg_code) (cards s)) of
        Inl e \<Rightarrow> (Inl e, s)
      | Inr found \<Rightarrow>
          redeemTail s found arg_merchantId arg_amount arg_apiKeyId Api_key Code now)"

definition apiRedeemByTrackData ::
  "(string \<Rightarrow> string) \<Rightarrow> ledger \<Rightarrow> id \<Rightarrow> string \<Rightarrow> int \<Rightarrow> id \<Rightarrow> int \<Rightarrow> txn_result" where
  "apiRedeemByTrackData sha256 s arg_merchantId arg_trackData arg_amount arg_apiKeyId now =
     (case unique (filter (\<lambda>c. trackDataHash c = Some (sha256 arg_trackData)) (cards s)) of
        Inl e \<Rightarrow> (Inl e, s)
      | Inr found \<Rightarrow>
          redeemTail s found arg_merchantId arg_amount arg_apiKeyId Api_key Track_data now)"






text \<open>\<^verbatim>\<open>adjust\<close>: a signed correction by an owner or admin. No usability check is made.\<close>

definition adjust ::
  "ledger \<Rightarrow> ErrorCode + MerchantContext \<Rightarrow> id \<Rightarrow> id \<Rightarrow> int \<Rightarrow> int \<Rightarrow> txn_result" where
  "adjust s auth arg_merchantId arg_cardId arg_amount now =
     (case auth of
        Inl e \<Rightarrow> (Inl e, s)
      | Inr merchantCtx \<Rightarrow>
     if memberRole merchantCtx \<noteq> Owner \<and> memberRole merchantCtx \<noteq> Admin
       then (Inl FORBIDDEN, s) else
     (case db_get card_id (cards s) arg_cardId of
        None \<Rightarrow> (Inl NOT_FOUND, s)
      | Some c \<Rightarrow>
     if merchantId c \<noteq> arg_merchantId then (Inl FORBIDDEN, s) else
     if arg_amount = 0 then (Inl INVALID_AMOUNT, s) else
     if currentBalance c + arg_amount < 0 then (Inl INVALID_AMOUNT, s) else
     if currentBalance c + arg_amount
          > setting (merchant merchantCtx) maxCardBalance DEFAULT_MAX_CARD_BALANCE
       then (Inl INVALID_AMOUNT, s) else
     (case recordTransaction s c Adjust arg_amount (currentBalance c + arg_amount)
              merchantCtx None None now of
        (t, s') \<Rightarrow> (Inr t, s'))))"

text \<open>
  \<^verbatim>\<open>refund\<close>: the original entry must be a redemption; the entries of its card are
  scanned for a refund already linked to it. No usability check is made.
\<close>

definition refund ::
  "ledger \<Rightarrow> ErrorCode + MerchantContext \<Rightarrow> id \<Rightarrow> id \<Rightarrow> int \<Rightarrow> txn_result" where
  "refund s auth arg_merchantId arg_transactionId now =
     (case auth of
        Inl e \<Rightarrow> (Inl e, s)
      | Inr merchantCtx \<Rightarrow>
     (case db_get txn_id (transactions s) arg_transactionId of
        None \<Rightarrow> (Inl NOT_FOUND, s)
      | Some originalTxn \<Rightarrow>
     if txn_merchantId originalTxn \<noteq> arg_merchantId then (Inl FORBIDDEN, s) else
     if txn_type originalTxn \<noteq> Redeem then (Inl VALIDATION_ERROR, s) else
     if list_ex (\<lambda>t. txn_type t = Refund \<and> linkedTransactionId t = Some arg_transactionId)
          (filter (\<lambda>t. cardId t = cardId originalTxn) (transactions s))
       then (Inl VALIDATION_ERROR, s) else
     (case db_get card_id (cards s) (cardId originalTxn) of
        None \<Rightarrow> (Inl NOT_FOUND, s)
      | Some c \<Rightarrow>
     if currentBalance c + amount originalTxn
          > setting (merchant merchantCtx) maxCardBalance DEFAULT_MAX_CARD_BALANCE
       then (Inl INVALID_AMOUNT, s) else
     (case recordTransaction s c Refund (amount originalTxn)
              (currentBalance c + amount originalTxn) merchantCtx None
              (Some arg_transactionId) now of
        (t, s') \<Rightarrow> (Inr t, s')))))"

text \<open>
  \<^verbatim>\<open>createSingle\<close> and \<^verbatim>\<open>apiCreateSingle\<close> from the balance check on. The generated
  redemption code is a parameter; \<^verbatim>\<open>if (args.trackData)\<close> is false for the empty
  string.
\<close>

type_synonym card_result = "(ErrorCode + card option) \<times> ledger"




text \<open>
  The argument validator of \<^verbatim>\<open>updateStatus\<close> admits the three literals
  \<^verbatim>\<open>"active"\<close>, \<^verbatim>\<open>"suspended"\<close> and \<^verbatim>\<open>"cancelled"\<close> only.
\<close>

datatype status_arg = To_active | To_suspended | To_cancelled

fun status_of :: "status_arg \<Rightarrow> card_status" where
  "status_of To_active = Active"
| "status_of To_suspended = Suspended"
| "status_of To_cancelled = Cancelled"

text \<open>
  \<^verbatim>\<open>updateStatus\<close> and \<^verbatim>\<open>apiUpdateStatus\<close> from the null check of the card on.
  \<^verbatim>\<open>!card.activatedAt\<close> holds for an absent timestamp and for 0.
\<close>

definition updateTail :: "ledger \<Rightarrow> id \<Rightarrow> id \<Rightarrow> status_arg \<Rightarrow> int \<Rightarrow> card_result" where
  "updateTail s arg_merchantId arg_cardId arg_status now =
     (case db_get card_id (cards s) arg_cardId of
        None \<Rightarrow> (Inl NOT_FOUND, s)
      | Some c \<Rightarrow>
     if merchantId c \<noteq> arg_merchantId then (Inl FORBIDDEN, s) else
     if status c = Cancelled \<and> arg_status = To_active then (Inl VALIDATION_ERROR, s) else
     if status c = Expired \<and> arg_status = To_active then (Inl VALIDATION_ERROR, s) else
     (let s' = s\<lparr>cards := db_patch card_id (cards s) arg_cardId
                    (\<lambda>d. if arg_status = To_active
                            \<and> (activatedAt c = None \<or> activatedAt c = Some 0)
                          then d\<lparr>status := status_of arg_status, activatedAt := Some now\<rparr>
                          else d\<lparr>status := status_of arg_status\<rparr>)\<rparr>
      in (Inr (db_get card_id (cards s') arg_cardId), s')))"

definition updateStatus ::
  "ledger \<Rightarrow> ErrorCode + MerchantContext \<Rightarrow> id \<Rightarrow> id \<Rightarrow> status_arg \<Rightarrow> int \<Rightarrow> card_result" where
  "updateStatus s auth arg_merchantId arg_cardId arg_status now =
     (case auth of
        Inl e \<Rightarrow> (Inl e, s)
      | Inr merchantCtx \<Rightarrow> updateTail s arg_merchantId arg_cardId arg_status now)"

definition apiUpdateStatus :: "ledger \<Rightarrow> id \<Rightarrow> id \<Rightarrow> status_arg \<Rightarrow> int \<Rightarrow> card_result" where
  "apiUpdateStatus s arg_merchantId arg_cardId arg_status now =
     updateTail s arg_merchantId arg_cardId arg_status now"






section \<open>API keys, rate limiting and request logs (apiKeys.ts)\<close>

datatype window_type = Minute | Day

datatype key_status = Key_active | Revoked

record apiKey =
  key_id :: id
  keyHash :: string
  key_merchantId :: "id option"
  permissions :: "string list"
  key_status :: key_status
  key_lastUsedAt :: "int option"
  key_expiresAt :: "int option"
  rateLimitPerMinute :: int
  rateLimitPerDay :: int

record rateLimitWindow =
  window_id :: id
  apiKeyId :: id
  windowType :: window_type
  windowStart :: int
  count :: int

record requestLog =
  log_apiKeyId :: id
  log_merchantId :: "id option"
  log_method :: string
  log_path :: string
  statusCode :: int
  durationMs :: int
  ipAddress :: "string option"
  userAgent :: "string option"
  errorMessage :: "string option"

record RateLimitResult =
  allowed :: bool
  remaining :: int
  limit :: int
  resetAt :: int

text \<open>
  The tables the gateway itself writes, next to the store \<open>app\<close> that the route
  handlers work on (cards, transactions, customers).
\<close>

record 'a gateway =
  apiKeys :: "apiKey list"
  apiKeyRateLimits :: "rateLimitWindow list"
  apiRequestLogs :: "requestLog list"
  gw_nextId :: id
  app :: 'a

text \<open>A thrown error as \<^verbatim>\<open>extractError\<close> reads it: code and message.\<close>

type_synonym thrown = "ErrorCode \<times> string"

definition validateKey ::
  "(string \<Rightarrow> string) \<Rightarrow> 'a gateway \<Rightarrow> string \<Rightarrow> int \<Rightarrow> (thrown + apiKey) \<times> 'a gateway" where
  "validateKey sha256 g arg_key now =
     (case unique (filter (\<lambda>k. keyHash k = sha256 arg_key) (apiKeys g)) of
        Inl e \<Rightarrow> (Inl (e, ''unique() query returned more than one result''), g)
      | Inr None \<Rightarrow> (Inl (UNAUTHORIZED, ''Invalid API key''), g)
      | Inr (Some k) \<Rightarrow>
     if key_status k = Revoked then (Inl (UNAUTHORIZED, ''API key has been revoked''), g) else
     if (case key_expiresAt k of None \<Rightarrow> False | Some e \<Rightarrow> e \<noteq> 0 \<and> e < now)
       then (Inl (UNAUTHORIZED, ''API key has expired''), g) else
     (Inr k, g\<lparr>apiKeys := db_patch key_id (apiKeys g) (key_id k)
                  (\<lambda>d. d\<lparr>key_lastUsedAt := Some now\<rparr>)\<rparr>))"

text \<open>
  \<^verbatim>\<open>checkRateLimit\<close>. \<^verbatim>\<open>Math.floor(now / windowDurationMs) * windowDurationMs\<close> on
  integers is \<open>now div d * d\<close>.
\<close>

definition checkRateLimit ::
  "'a gateway \<Rightarrow> id \<Rightarrow> window_type \<Rightarrow> int \<Rightarrow> (thrown + RateLimitResult) \<times> 'a gateway" where
  "checkRateLimit g arg_apiKeyId arg_windowType now =
     (case db_get key_id (apiKeys g) arg_apiKeyId of
        None \<Rightarrow> (Inr \<lparr>allowed = False, remaining = 0, limit = 0, resetAt = 0\<rparr>, g)
      | Some k \<Rightarrow>
     (let windowDurationMs = (if arg_windowType = Minute then 60 * 1000
                              else 24 * 60 * 60 * 1000);
          start = now div windowDurationMs * windowDurationMs;
          reset = start + windowDurationMs;
          lim = (if arg_windowType = Minute then rateLimitPerMinute k else rateLimitPerDay k)
      in (case unique (filter (\<lambda>w. apiKeyId w = arg_apiKeyId
                                   \<and> windowType w = arg_windowType
                                   \<and> windowStart w = start) (apiKeyRateLimits g)) of
            Inl e \<Rightarrow> (Inl (e, ''unique() query returned more than one result''), g)
          | Inr (Some existing) \<Rightarrow>
              if count existing \<ge> lim
              then (Inr \<lparr>allowed = False, remaining = 0, limit = lim, resetAt = reset\<rparr>, g)
              else (Inr \<lparr>allowed = True, remaining = lim - count existing - 1, limit = lim,
                         resetAt = reset\<rparr>,
                    g\<lparr>apiKeyRateLimits := db_patch window_id (apiKeyRateLimits g)
                         (window_id existing) (\<lambda>w. w\<lparr>count := count existing + 1\<rparr>)\<rparr>)
          | Inr None \<Rightarrow>
              (Inr \<lparr>allowed = True, remaining = lim - 1, limit = lim, resetAt = reset\<rparr>,
               g\<lparr>apiKeyRateLimits := apiKeyRateLimits g @
                     [\<lparr>window_id = gw_nextId g, apiKeyId = arg_apiKeyId,
                       windowType = arg_windowType, windowStart = start, count = 1\<rparr>],
                  gw_nextId := Suc (gw_nextId g)\<rparr>))))"

definition logRequest :: "'a gateway \<Rightarrow> requestLog \<Rightarrow> 'a gateway" where
  "logRequest g entry = g\<lparr>apiRequestLogs := apiRequestLogs g @ [entry]\<rparr>"

section \<open>The gateway dispatcher (http.ts)\<close>

record request =
  req_method :: string
  req_pathname :: string
  authorization :: "string option"
  xForwardedFor :: "string option"
  userAgentHeader :: "string option"
  bodyParses :: bool

text \<open>
  The readings of \<^verbatim>\<open>Date.now()\<close> during one request: at entry, inside the three
  mutations it may run, and when the log record is written.
\<close>

record clock =
  startTime :: int
  validateTime :: int
  minuteTime :: int
  dayTime :: int
  endTime :: int

datatype response = Success int | Failure ErrorCode string int | Preflight

fun response_status :: "response \<Rightarrow> int" where
  "response_status (Success st) = st"
| "response_status (Failure code msg st) = st"
| "response_status Preflight = 204"

text \<open>
  A route handler is a parameter: given the key, the path parameters and the request it
  works on the application store and returns the optional status of its result, or
  throws.
\<close>

type_synonym 'a handler =
  "apiKey option \<Rightarrow> (string \<times> string) list \<Rightarrow> request \<Rightarrow> 'a \<Rightarrow> (thrown + int option) \<times> 'a"

record 'a route =
  pattern :: string
  route_method :: string
  permission :: "string option"
  handler :: "'a handler"

definition errorCodeToStatus :: "ErrorCode \<Rightarrow> int" where
  "errorCodeToStatus code =
     (case code of
        UNAUTHORIZED \<Rightarrow> 401 | INVALID_API_KEY \<Rightarrow> 401 | API_KEY_REVOKED \<Rightarrow> 401
      | FORBIDDEN \<Rightarrow> 403 | PERMISSION_DENIED \<Rightarrow> 403
      | NOT_FOUND \<Rightarrow> 404
      | CONFLICT \<Rightarrow> 409
      | VALIDATION_ERROR \<Rightarrow> 400 | INVALID_AMOUNT \<Rightarrow> 400
      | RATE_LIMITED \<Rightarrow> 429
      | INSUFFICIENT_BALANCE \<Rightarrow> 422
      | CARD_INACTIVE \<Rightarrow> 422 | CARD_EXPIRED \<Rightarrow> 422
      | INTERNAL_ERROR \<Rightarrow> 500)"

text \<open>\<^verbatim>\<open>s.split("/").filter(Boolean)\<close>: the non-empty segments of a path.\<close>

fun split_on :: "char \<Rightarrow> string \<Rightarrow> string list" where
  "split_on sep [] = [[]]"
| "split_on sep (x # xs) =
     (if x = sep then [] # split_on sep xs
      else (case split_on sep xs of
              [] \<Rightarrow> [[x]]
            | w # ws \<Rightarrow> (x # w) # ws))"

definition segments :: "string \<Rightarrow> string list" where
  "segments p = filter (\<lambda>w. w \<noteq> []) (split_on CHR ''/'' p)"

fun matchParts :: "string list \<Rightarrow> string list \<Rightarrow> (string \<times> string) list option" where
  "matchParts [] [] = Some []"
| "matchParts (pat # pats) (part # parts) =
     (if take 1 pat = '':''
      then map_option (\<lambda>ps. (drop 1 pat, part) # ps) (matchParts pats parts)
      else if pat \<noteq> part then None
      else matchParts pats parts)"
| "matchParts _ _ = None"

definition matchRoute :: "string \<Rightarrow> string \<Rightarrow> (string \<times> string) list option" where
  "matchRoute pathname pat =
     (if length (segments pathname) \<noteq> length (segments pat) then None
      else matchParts (segments pat) (segments pathname))"

fun findRoute :: "'a route list \<Rightarrow> string \<Rightarrow> string \<Rightarrow> ('a route \<times> (string \<times> string) list) option"
  where
  "findRoute [] m pathname = None"
| "findRoute (r # rs) m pathname =
     (if route_method r \<noteq> m then findRoute rs m pathname
      else (case matchRoute pathname (pattern r) of
              Some params \<Rightarrow> Some (r, params)
            | None \<Rightarrow> findRoute rs m pathname))"

definition hasPermission :: "string list \<Rightarrow> string \<Rightarrow> bool" where
  "hasPermission grantedPermissions requiredPermission =
     List.member grantedPermissions requiredPermission"

definition logEntry :: "apiKey \<Rightarrow> request \<Rightarrow> clock \<Rightarrow> int \<Rightarrow> string option \<Rightarrow> requestLog" where
  "logEntry k req clk st msg =
     \<lparr>log_apiKeyId = key_id k, log_merchantId = key_merchantId k,
      log_method = req_method req, log_path = req_pathname req, statusCode = st,
      durationMs = endTime clk - startTime clk, ipAddress = xForwardedFor req,
      userAgent = userAgentHeader req, errorMessage = msg\<rparr>"

text \<open>Steps 4 and 5 of \<^verbatim>\<open>dispatchRoute\<close>: the permission check and the handler.\<close>

definition authorizeAndRun ::
  "'a gateway \<Rightarrow> apiKey \<Rightarrow> 'a route \<Rightarrow> (string \<times> string) list \<Rightarrow> request \<Rightarrow> clock
   \<Rightarrow> response \<times> 'a gateway" where
  "authorizeAndRun g k matchedRoute params req clk =
     (if (case permission matchedRoute of
            None \<Rightarrow> False
          | Some p \<Rightarrow> p \<noteq> [] \<and> \<not> hasPermission (permissions k) p)
      then (Failure PERMISSION_DENIED
              (''API key missing required permission: '' @ (case permission matchedRoute of None \<Rightarrow> [] | Some p \<Rightarrow> p))
              403,
            logRequest g (logEntry k req clk 403
              (Some (''Missing permission: '' @ (case permission matchedRoute of None \<Rightarrow> [] | Some p \<Rightarrow> p)))))
      else (case handler matchedRoute (Some k) params req (app g) of
              (Inr st, a) \<Rightarrow>
                (let statusCode = (case st of None \<Rightarrow> 200 | Some v \<Rightarrow> v)
                 in (Success statusCode,
                     logRequest (g\<lparr>app := a\<rparr>) (logEntry k req clk statusCode None)))
            | (Inl (code, message), a) \<Rightarrow>
                (Failure code message (errorCodeToStatus code),
                 logRequest (g\<lparr>app := a\<rparr>)
                   (logEntry k req clk (errorCodeToStatus code) (Some message)))))"

definition dispatchRoute ::
  "(string \<Rightarrow> string) \<Rightarrow> 'a route list \<Rightarrow> 'a gateway \<Rightarrow> request \<Rightarrow> clock
   \<Rightarrow> response \<times> 'a gateway" where
  "dispatchRoute sha256 routes g req clk =
     (if req_method req = ''OPTIONS'' then (Preflight, g) else
     (case findRoute routes (req_method req) (req_pathname req) of
        None \<Rightarrow> (Failure NOT_FOUND ''Endpoint not found'' 404, g)
      | Some (matchedRoute, params) \<Rightarrow>
     if (req_method req = ''POST'' \<or> req_method req = ''PATCH'' \<or> req_method req = ''PUT'')
        \<and> \<not> bodyParses req
       then (Failure VALIDATION_ERROR ''Invalid JSON in request body'' 400, g) else
     if permission matchedRoute = None then
       (case handler matchedRoute None params req (app g) of
          (Inr st, a) \<Rightarrow> (Success (case st of None \<Rightarrow> 200 | Some v \<Rightarrow> v), g\<lparr>app := a\<rparr>)
        | (Inl (code, message), a) \<Rightarrow>
            (Failure code message (errorCodeToStatus code), g\<lparr>app := a\<rparr>))
     else
     (case authorization req of
        None \<Rightarrow>
          (Failure UNAUTHORIZED
             ''Missing or invalid Authorization header. Expected: Bearer lgf_...'' 401, g)
      | Some authHeader \<Rightarrow>
     if take 7 authHeader \<noteq> ''Bearer ''
       then (Failure UNAUTHORIZED
               ''Missing or invalid Authorization header. Expected: Bearer lgf_...'' 401, g) else
     if take 4 (drop 7 authHeader) \<noteq> ''lgf_''
       then (Failure UNAUTHORIZED ''Invalid API key format'' 401, g) else
     (case validateKey sha256 g (drop 7 authHeader) (validateTime clk) of
        (Inl (code, message), g1) \<Rightarrow> (Failure code message (errorCodeToStatus code), g1)
      | (Inr k, g1) \<Rightarrow>
     (case checkRateLimit g1 (key_id k) Minute (minuteTime clk) of
        (Inl (code, message), g2) \<Rightarrow> (Failure code message 500, g2)
      | (Inr rateLimitResult, g2) \<Rightarrow>
     if \<not> allowed rateLimitResult
       then (Failure RATE_LIMITED ''Rate limit exceeded. Try again later.'' 429,
             logRequest g2 (logEntry k req clk 429 (Some ''Rate limit exceeded''))) else
     (case checkRateLimit g2 (key_id k) Day (dayTime clk) of
        (Inl _, g3) \<Rightarrow> authorizeAndRun g3 k matchedRoute params req clk
      | (Inr dailyResult, g3) \<Rightarrow>
     if \<not> allowed dailyResult
       then (Failure RATE_LIMITED ''Daily rate limit exceeded. Try again tomorrow.'' 429,
             logRequest g3 (logEntry k req clk 429 (Some ''Daily rate limit exceeded'')))
       else authorizeAndRun g3 k matchedRoute params req clk))))))"

section \<open>Webhook deliveries (webhooks.ts)\<close>














section \<open>Vocabulary of the properties\<close>

text \<open>
  The signed effect of an entry on its card: the stored amount counts positively for
  loads, incoming transfers and refunds, negatively for redemptions and outgoing
  transfers; an adjustment stores its own sign.
\<close>

definition signed :: "transaction_type \<Rightarrow> int \<Rightarrow> int" where
  "signed ty amt =
     (case ty of
        Load \<Rightarrow> amt
      | Redeem \<Rightarrow> - amt
      | Transfer_in \<Rightarrow> amt
      | Transfer_out \<Rightarrow> - amt
      | Adjust \<Rightarrow> amt
      | Refund \<Rightarrow> amt)"

definition signedAmount :: "txn \<Rightarrow> int" where
  "signedAmount t = signed (txn_type t) (amount t)"

definition entries :: "txn list \<Rightarrow> id \<Rightarrow> txn list" where
  "entries ts i = filter (\<lambda>t. cardId t = i) ts"

text \<open>
  Replaying the entries of one card from a starting balance: every entry must start at
  the balance reached so far and end at that balance plus its signed amount. The result
  is the final balance, or \<open>None\<close> when a snapshot does not fit.
\<close>

fun replay :: "int \<Rightarrow> txn list \<Rightarrow> int option" where
  "replay b [] = Some b"
| "replay b (t # ts) =
     (if balanceBefore t = b \<and> balanceAfter t = b + signedAmount t
      then replay (balanceAfter t) ts else None)"




text \<open>The balance of the card with a given id, if the card exists.\<close>

definition balanceOf :: "ledger \<Rightarrow> id \<Rightarrow> int option" where
  "balanceOf s i = map_option currentBalance (db_get card_id (cards s) i)"







text \<open>
  The key string a request presents: the rest of an \<^verbatim>\<open>Authorization\<close> header that
  starts with \<^verbatim>\<open>Bearer \<close> followed by \<^verbatim>\<open>lgf_\<close>.
\<close>

definition bearer :: "request \<Rightarrow> string option" where
  "bearer req =
     (case authorization req of
        None \<Rightarrow> None
      | Some authHeader \<Rightarrow>
          if take 7 authHeader = ''Bearer '' \<and> take 4 (drop 7 authHeader) = ''lgf_''
          then Some (drop 7 authHeader) else None)"

text \<open>A request that reaches the authenticated part of the dispatcher on some route.\<close>

definition routed :: "'a route list \<Rightarrow> request \<Rightarrow> 'a route \<Rightarrow> (string \<times> string) list \<Rightarrow> bool" where
  "routed routes req matchedRoute params =
     (req_method req \<noteq> ''OPTIONS''
      \<and> findRoute routes (req_method req) (req_pathname req) = Some (matchedRoute, params)
      \<and> \<not> ((req_method req = ''POST'' \<or> req_method req = ''PATCH'' \<or> req_method req = ''PUT'')
             \<and> \<not> bodyParses req)
      \<and> permission matchedRoute \<noteq> None)"

text \<open>The rows of one rate-limit window, its counter, and the shape of the table.\<close>

definition windowDuration :: "window_type \<Rightarrow> int" where
  "windowDuration wt = (if wt = Minute then 60 * 1000 else 24 * 60 * 60 * 1000)"

definition windowOf :: "window_type \<Rightarrow> int \<Rightarrow> int" where
  "windowOf wt now = now div windowDuration wt * windowDuration wt"

definition windowRows :: "'a gateway \<Rightarrow> id \<Rightarrow> window_type \<Rightarrow> int \<Rightarrow> rateLimitWindow list" where
  "windowRows g k wt start =
     filter (\<lambda>w. apiKeyId w = k \<and> windowType w = wt \<and> windowStart w = start)
       (apiKeyRateLimits g)"

definition counter :: "'a gateway \<Rightarrow> id \<Rightarrow> window_type \<Rightarrow> int \<Rightarrow> int" where
  "counter g k wt start = sum_list (map count (windowRows g k wt start))"

definition windows_ok :: "'a gateway \<Rightarrow> bool" where
  "windows_ok g =
     (distinct (map window_id (apiKeyRateLimits g))
      \<and> list_all (\<lambda>w. window_id w < gw_nextId g) (apiKeyRateLimits g)
      \<and> distinct (map (\<lambda>w. (apiKeyId w, windowType w, windowStart w)) (apiKeyRateLimits g)))"

definition limitOf :: "apiKey \<Rightarrow> window_type \<Rightarrow> int" where
  "limitOf k wt = (if wt = Minute then rateLimitPerMinute k else rateLimitPerDay k)"

text \<open>
  A burst of rate-limit checks for one key and one granularity at the given clock
  readings: the verdict of each check (a check that throws counts as not allowed) and
  the gateway left behind.
\<close>

fun checks :: "'a gateway \<Rightarrow> id \<Rightarrow> window_type \<Rightarrow> int list \<Rightarrow> bool list \<times> 'a gateway" where
  "checks g k wt [] = ([], g)"
| "checks g k wt (now # later) =
     (case checkRateLimit g k wt now of
        (r, g') \<Rightarrow>
          (case checks g' k wt later of
             (vs, g'') \<Rightarrow> ((case r of Inl _ \<Rightarrow> False | Inr res \<Rightarrow> allowed res) # vs, g'')))"

text \<open>The value a call returned, if it did not throw.\<close>

definition projr_opt :: "'e + 'a \<Rightarrow> 'a option" where
  "projr_opt r = (case r of Inl _ \<Rightarrow> None | Inr v \<Rightarrow> Some v)"

text \<open>A call is rejected when it throws and leaves the store as it found it.\<close>

definition rejected :: "(ErrorCode + 'a) \<times> 'b \<Rightarrow> 'b \<Rightarrow> bool" where
  "rejected r s = (isl (fst r) \<and> snd r = s)"

section \<open>Example stores\<close>

definition ex_ctx :: MerchantContext where
  "ex_ctx = \<lparr>user = 7, merchant = \<lparr>merchant_id = 1, settings = None\<rparr>, memberRole = Owner\<rparr>"

definition ex_card :: "card_status \<Rightarrow> int \<Rightarrow> int \<Rightarrow> card" where
  "ex_card st initial current =
     \<lparr>card_id = 10, merchantId = 1, customerId = None, codeHash = ''c0de'',
      trackDataHash = Some ''7rack'', status = st, initialBalance = initial,
      currentBalance = current, currency = ''USD'', expiresAt = None,
      activatedAt = Some 5, lastUsedAt = None\<rparr>"

text \<open>One card holding 100 with an empty log.\<close>

definition ex_store :: "card_status \<Rightarrow> ledger" where
  "ex_store st =
     \<lparr>merchants = [\<lparr>merchant_id = 1, settings = None\<rparr>], cards = [ex_card st 100 100],
      transactions = [], nextId = 11\<rparr>"

text \<open>
  The scenario of the specification: a card issued with 2500, loaded with 500 (entry 11)
  and redeemed for 1000 (entry 12).
\<close>

definition ex_entry :: "id \<Rightarrow> transaction_type \<Rightarrow> int \<Rightarrow> int \<Rightarrow> int \<Rightarrow> txn" where
  "ex_entry i ty amt before after =
     \<lparr>txn_id = i, txn_merchantId = 1, cardId = 10, txn_customerId = None, txn_type = ty,
      amount = amt, balanceBefore = before, balanceAfter = after, txn_currency = ''USD'',
      performedBy = 7, performedByType = User,
      redemptionMethod = (if ty = Redeem then Some Manual else None),
      linkedTransactionId = None\<rparr>"

definition ex_ledger :: "card_status \<Rightarrow> ledger" where
  "ex_ledger st =
     \<lparr>merchants = [\<lparr>merchant_id = 1, settings = None\<rparr>], cards = [ex_card st 2500 2000],
      transactions = [ex_entry 11 Load 500 2500 3000, ex_entry 12 Redeem 1000 3000 2000],
      nextId = 13\<rparr>"




text \<open>
  A gateway with one active key (id 3, secret hash \<open>lgf_k\<close>, permission
  \<open>cards:read\<close>) whose per-minute limit is a parameter, no rate-limit rows and no
  logs. The application store is not looked at.
\<close>

definition ex_key :: "int \<Rightarrow> apiKey" where
  "ex_key lim =
     \<lparr>key_id = 3, keyHash = ''lgf_k'', key_merchantId = Some 1,
      permissions = [''cards:read''], key_status = Key_active, key_lastUsedAt = None,
      key_expiresAt = None, rateLimitPerMinute = lim, rateLimitPerDay = 10000\<rparr>"

definition ex_gateway :: "int \<Rightarrow> unit gateway" where
  "ex_gateway lim =
     \<lparr>apiKeys = [ex_key lim], apiKeyRateLimits = [], apiRequestLogs = [], gw_nextId = 100,
      app = ()\<rparr>"

text \<open>The same gateway with the row of the minute window starting at 60000 in place.\<close>

definition ex_gateway_row :: "int \<Rightarrow> int \<Rightarrow> unit gateway" where
  "ex_gateway_row lim n =
     \<lparr>apiKeys = [ex_key lim],
      apiKeyRateLimits = [\<lparr>window_id = 50, apiKeyId = 3, windowType = Minute,
                           windowStart = 60000, count = n\<rparr>],
      apiRequestLogs = [], gw_nextId = 100, app = ()\<rparr>"

text \<open>
  A request for the card list with a well-formed bearer key, the clock readings of its
  processing, and one route whose required permission and handler are parameters.
\<close>

definition ex_request :: request where
  "ex_request =
     \<lparr>req_method = ''GET'', req_pathname = ''/api/v1/cards'',
      authorization = Some ''Bearer lgf_k'', xForwardedFor = Some ''10.0.0.1'',
      userAgentHeader = Some ''curl'', bodyParses = True\<rparr>"

definition ex_clock :: clock where
  "ex_clock = \<lparr>startTime = 60000, validateTime = 60001, minuteTime = 60002,
                dayTime = 60003, endTime = 60010\<rparr>"

definition ex_routes :: "string \<Rightarrow> unit handler \<Rightarrow> unit route list" where
  "ex_routes perm h =
     [\<lparr>pattern = ''/api/v1/cards/:cardId'', route_method = ''GET'',
       permission = Some ''cards:read'', handler = h\<rparr>,
      \<lparr>pattern = ''/api/v1/cards'', route_method = ''GET'', permission = Some perm,
       handler = h\<rparr>]"

definition ex_ok_handler :: "unit handler" where
  "ex_ok_handler k params req a = (Inr None, a)"

definition ex_failing_handler :: "unit handler" where
  "ex_failing_handler k params req a = (Inl (NOT_FOUND, ''Card not found''), a)"




section \<open>Documents, ids and replay\<close>





lemma same_id_same_doc:
  "distinct (map key tbl) \<Longrightarrow> d \<in> set tbl \<Longrightarrow> d' \<in> set tbl \<Longrightarrow> key d = key d' \<Longrightarrow> d = d'"
  by (meson distinct_map inj_on_def)







lemma replay_map:
  "(\<And>t. balanceBefore (g t) = balanceBefore t \<and> balanceAfter (g t) = balanceAfter t
        \<and> signedAmount (g t) = signedAmount t) \<Longrightarrow>
   replay b (map g ts) = replay b ts"
  by (induction ts arbitrary: b) auto







lemma entries_append: "entries (ts @ us) i = entries ts i @ entries us i"
  by (simp add: entries_def)
































































lemma distinct_filter_le1:
  "distinct (map f xs) \<Longrightarrow> length (filter (\<lambda>x. f x = v) xs) \<le> 1"
proof (induction xs)
  case Nil
  then show ?case by simp
next
  case (Cons x xs)
  show ?case
  proof (cases "f x = v")
    case True
    with Cons.prems have "filter (\<lambda>x. f x = v) xs = []"
      by (force simp: filter_empty_conv image_iff)
    with True show ?thesis by simp
  next
    case False
    with Cons show ?thesis by simp
  qed
qed


section \<open>The balance is the replay of the ledger\<close>



section \<open>Transfers\<close>





section \<open>Refunds\<close>



section \<open>The rate limiter\<close>

lemma windowRows_cases:
  assumes "windows_ok g"
  obtains (none) "windowRows g k wt start = []" | (one) w where "windowRows g k wt start = [w]"
proof -
  have "distinct (map (\<lambda>w. (apiKeyId w, windowType w, windowStart w)) (apiKeyRateLimits g))"
    using assms by (simp add: windows_ok_def)
  then have "length (filter (\<lambda>w. (apiKeyId w, windowType w, windowStart w) = (k, wt, start))
      (apiKeyRateLimits g)) \<le> 1"
    by (rule distinct_filter_le1)
  then have "length (windowRows g k wt start) \<le> 1"
    by (simp add: windowRows_def)
  then show ?thesis
    using none one by (cases "windowRows g k wt start") auto
qed

lemma check_fresh:
  assumes "db_get key_id (apiKeys g) k = Some key" "windowRows g k wt (windowOf wt now) = []"
  shows "checkRateLimit g k wt now =
     (Inr \<lparr>allowed = True, remaining = limitOf key wt - 1, limit = limitOf key wt,
           resetAt = windowOf wt now + windowDuration wt\<rparr>,
      g\<lparr>apiKeyRateLimits := apiKeyRateLimits g @
            [\<lparr>window_id = gw_nextId g, apiKeyId = k, windowType = wt,
              windowStart = windowOf wt now, count = 1\<rparr>],
        gw_nextId := Suc (gw_nextId g)\<rparr>)"
  using assms
  by (simp add: checkRateLimit_def Let_def windowRows_def windowOf_def windowDuration_def
      limitOf_def)

lemma check_below:
  assumes "db_get key_id (apiKeys g) k = Some key" "windowRows g k wt (windowOf wt now) = [w]"
    "count w < limitOf key wt"
  shows "checkRateLimit g k wt now =
     (Inr \<lparr>allowed = True, remaining = limitOf key wt - count w - 1, limit = limitOf key wt,
           resetAt = windowOf wt now + windowDuration wt\<rparr>,
      g\<lparr>apiKeyRateLimits := db_patch window_id (apiKeyRateLimits g) (window_id w)
            (\<lambda>x. x\<lparr>count := count w + 1\<rparr>)\<rparr>)"
  using assms
  by (simp add: checkRateLimit_def Let_def windowRows_def windowOf_def windowDuration_def
      limitOf_def)

lemma check_at_limit:
  assumes "db_get key_id (apiKeys g) k = Some key" "windowRows g k wt (windowOf wt now) = [w]"
    "limitOf key wt \<le> count w"
  shows "checkRateLimit g k wt now =
     (Inr \<lparr>allowed = False, remaining = 0, limit = limitOf key wt,
           resetAt = windowOf wt now + windowDuration wt\<rparr>, g)"
  using assms
  by (simp add: checkRateLimit_def Let_def windowRows_def windowOf_def windowDuration_def
      limitOf_def)

text \<open>The table after a row was appended or one row's count was bumped.\<close>

lemma windows_ok_append:
  assumes "windows_ok g" "windowRows g k wt start = []"
  shows "windows_ok (g\<lparr>apiKeyRateLimits := apiKeyRateLimits g @
            [\<lparr>window_id = gw_nextId g, apiKeyId = k, windowType = wt,
              windowStart = start, count = 1\<rparr>],
        gw_nextId := Suc (gw_nextId g)\<rparr>)"
proof -
  have "(k, wt, start) \<notin> (\<lambda>w. (apiKeyId w, windowType w, windowStart w)) ` set (apiKeyRateLimits g)"
    using assms(2) by (auto simp: windowRows_def filter_empty_conv)
  moreover have "gw_nextId g \<notin> window_id ` set (apiKeyRateLimits g)"
    using assms(1) by (auto simp: windows_ok_def list_all_iff)
  ultimately show ?thesis
    using assms(1) by (auto simp: windows_ok_def list_all_iff less_Suc_eq)
qed

lemma windows_ok_patch:
  assumes "windows_ok g"
  shows "windows_ok (g\<lparr>apiKeyRateLimits := db_patch window_id (apiKeyRateLimits g) i
            (\<lambda>x. x\<lparr>count := c\<rparr>)\<rparr>)"
proof -
  have "map (\<lambda>w. (apiKeyId w, windowType w, windowStart w))
          (db_patch window_id (apiKeyRateLimits g) i (\<lambda>x. x\<lparr>count := c\<rparr>))
      = map (\<lambda>w. (apiKeyId w, windowType w, windowStart w)) (apiKeyRateLimits g)"
    by (simp add: db_patch_def)
  moreover have "map window_id (db_patch window_id (apiKeyRateLimits g) i (\<lambda>x. x\<lparr>count := c\<rparr>))
      = map window_id (apiKeyRateLimits g)"
    by (simp add: db_patch_def)
  moreover have "\<forall>w\<in>set (db_patch window_id (apiKeyRateLimits g) i (\<lambda>x. x\<lparr>count := c\<rparr>)).
      window_id w < gw_nextId g"
    using assms by (auto simp: windows_ok_def list_all_iff db_patch_def)
  ultimately show ?thesis
    using assms by (simp add: windows_ok_def list_all_iff)
qed

lemma filter_map_invariant:
  "(\<And>x. P (f x) = P x) \<Longrightarrow> filter P (map f xs) = map f (filter P xs)"
  by (induction xs) simp_all

lemma windowRows_patch:
  assumes "windows_ok g" "windowRows g k wt start = [w]"
  shows "windowRows (g\<lparr>apiKeyRateLimits := db_patch window_id (apiKeyRateLimits g) (window_id w)
            (\<lambda>x. x\<lparr>count := c\<rparr>)\<rparr>) k' wt' start'
       = (if (k', wt', start') = (k, wt, start) then [w\<lparr>count := c\<rparr>]
          else windowRows g k' wt' start')"
proof -
  from assms(2) have "w \<in> set (windowRows g k wt start)" by simp
  then have w: "w \<in> set (apiKeyRateLimits g)" "apiKeyId w = k" "windowType w = wt"
    "windowStart w = start"
    by (auto simp: windowRows_def)
  from assms(1) have dist: "distinct (map window_id (apiKeyRateLimits g))"
    by (simp add: windows_ok_def)
  have only: "x = w" if "x \<in> set (apiKeyRateLimits g)" "window_id x = window_id w" for x
    using same_id_same_doc [OF dist that(1) w(1) that(2)] .
  have patch: "db_patch window_id (apiKeyRateLimits g) (window_id w) (\<lambda>x. x\<lparr>count := c\<rparr>)
      = map (\<lambda>x. if x = w then w\<lparr>count := c\<rparr> else x) (apiKeyRateLimits g)"
    unfolding db_patch_def using only by (intro map_cong) auto
  have "filter (\<lambda>x. apiKeyId x = k' \<and> windowType x = wt' \<and> windowStart x = start')
          (map (\<lambda>x. if x = w then w\<lparr>count := c\<rparr> else x) (apiKeyRateLimits g))
      = map (\<lambda>x. if x = w then w\<lparr>count := c\<rparr> else x)
          (filter (\<lambda>x. apiKeyId x = k' \<and> windowType x = wt' \<and> windowStart x = start')
             (apiKeyRateLimits g))"
    by (rule filter_map_invariant) simp
  then have eq: "windowRows (g\<lparr>apiKeyRateLimits := db_patch window_id (apiKeyRateLimits g)
            (window_id w) (\<lambda>x. x\<lparr>count := c\<rparr>)\<rparr>) k' wt' start'
      = map (\<lambda>x. if x = w then w\<lparr>count := c\<rparr> else x) (windowRows g k' wt' start')"
    by (simp add: windowRows_def patch)
  show ?thesis
  proof (cases "(k', wt', start') = (k, wt, start)")
    case True
    then show ?thesis using eq assms(2) by simp
  next
    case False
    then have "w \<notin> set (windowRows g k' wt' start')"
      using w by (auto simp: windowRows_def)
    then have "map (\<lambda>x. if x = w then w\<lparr>count := c\<rparr> else x) (windowRows g k' wt' start')
        = windowRows g k' wt' start'"
      by (intro map_idI) auto
    then show ?thesis using eq False by auto
  qed
qed

lemma windowRows_append:
  "windowRows (g\<lparr>apiKeyRateLimits := apiKeyRateLimits g @ [r], gw_nextId := n\<rparr>) k wt start
     = windowRows g k wt start
       @ (if apiKeyId r = k \<and> windowType r = wt \<and> windowStart r = start then [r] else [])"
  by (simp add: windowRows_def)

lemma checks_append:
  "fst (checks g k wt (xs @ ys))
     = fst (checks g k wt xs) @ fst (checks (snd (checks g k wt xs)) k wt ys)"
  by (induction xs arbitrary: g) (simp_all add: case_prod_unfold)

lemma all_false_map: "(\<And>x. \<not> P x) \<Longrightarrow> map P xs = replicate (length xs) False"
  by (induction xs) simp_all

lemma all_true_map: "(\<And>x. x \<in> set xs \<Longrightarrow> P x) \<Longrightarrow> map P xs = replicate (length xs) True"
  by (induction xs) simp_all

lemma map_upt_Suc0: "map f [0..<Suc n] = f 0 # map (\<lambda>i. f (Suc i)) [0..<n]"
  by (simp add: upt_conv_Cons map_Suc_upt [symmetric] del: upt_Suc)

text \<open>
  A burst of checks inside one window that already has its row: the check number \<open>i\<close>
  is allowed exactly when the count it finds, at most \<open>count w + i\<close>, is below the limit.
\<close>

lemma burst_existing:
  assumes "windows_ok g" "db_get key_id (apiKeys g) k = Some key"
    "windowRows g k wt start = [w]" "\<forall>t\<in>set ts. windowOf wt t = start"
  shows "fst (checks g k wt ts) = map (\<lambda>i. count w + int i < limitOf key wt) [0..<length ts]
       \<and> windows_ok (snd (checks g k wt ts))
       \<and> apiKeys (snd (checks g k wt ts)) = apiKeys g
       \<and> (\<forall>start'. start' \<noteq> start \<longrightarrow>
             windowRows (snd (checks g k wt ts)) k wt start' = windowRows g k wt start')"
  using assms
proof (induction ts arbitrary: g w)
  case Nil
  then show ?case by simp
next
  case (Cons t ts)
  from Cons.prems(4) have t: "windowOf wt t = start" and ts: "\<forall>t\<in>set ts. windowOf wt t = start"
    by simp_all
  show ?case
  proof (cases "count w < limitOf key wt")
    case True
    define g1 where "g1 = g\<lparr>apiKeyRateLimits := db_patch window_id (apiKeyRateLimits g)
        (window_id w) (\<lambda>x. x\<lparr>count := count w + 1\<rparr>)\<rparr>"
    have c: "checkRateLimit g k wt t =
       (Inr \<lparr>allowed = True, remaining = limitOf key wt - count w - 1, limit = limitOf key wt,
           resetAt = windowOf wt t + windowDuration wt\<rparr>, g1)"
      unfolding g1_def using Cons.prems(2,3) True t by (intro check_below) simp_all
    have ok1: "windows_ok g1" unfolding g1_def using Cons.prems(1) by (rule windows_ok_patch)
    have k1: "db_get key_id (apiKeys g1) k = Some key" using Cons.prems(2) by (simp add: g1_def)
    have rows1: "windowRows g1 k wt start' =
        (if start' = start then [w\<lparr>count := count w + 1\<rparr>] else windowRows g k wt start')"
      for start'
      unfolding g1_def using windowRows_patch [OF Cons.prems(1,3)] by simp
    from rows1 have r1: "windowRows g1 k wt start = [w\<lparr>count := count w + 1\<rparr>]" by simp
    from Cons.IH [OF ok1 k1 r1 ts]
    have ih: "fst (checks g1 k wt ts)
          = map (\<lambda>i. count w + 1 + int i < limitOf key wt) [0..<length ts]"
      "windows_ok (snd (checks g1 k wt ts))"
      "apiKeys (snd (checks g1 k wt ts)) = apiKeys g1"
      "\<forall>start'. start' \<noteq> start \<longrightarrow>
          windowRows (snd (checks g1 k wt ts)) k wt start' = windowRows g1 k wt start'"
      by simp_all
    have "map (\<lambda>i. count w + int i < limitOf key wt) [0..<Suc (length ts)]
        = True # map (\<lambda>i. count w + 1 + int i < limitOf key wt) [0..<length ts]"
      using True by (simp add: map_upt_Suc0 add.assoc del: upt_Suc)
    then show ?thesis
      using c ih rows1 by (simp add: case_prod_unfold g1_def del: upt_Suc)
  next
    case False
    have c: "checkRateLimit g k wt t =
       (Inr \<lparr>allowed = False, remaining = 0, limit = limitOf key wt,
           resetAt = windowOf wt t + windowDuration wt\<rparr>, g)"
    proof -
      have "limitOf key wt \<le> count w" using False by linarith
      with Cons.prems(2,3) t show ?thesis by (intro check_at_limit) simp_all
    qed
    from Cons.IH [OF Cons.prems(1,2,3) ts]
    have ih: "fst (checks g k wt ts) = map (\<lambda>i. count w + int i < limitOf key wt) [0..<length ts]"
      "windows_ok (snd (checks g k wt ts))"
      "apiKeys (snd (checks g k wt ts)) = apiKeys g"
      "\<forall>start'. start' \<noteq> start \<longrightarrow>
          windowRows (snd (checks g k wt ts)) k wt start' = windowRows g k wt start'"
      by simp_all
    have no: "\<not> count w + int i < limitOf key wt" for i using False by simp
    have "map (\<lambda>i. count w + int i < limitOf key wt) [0..<Suc (length ts)]
        = False # map (\<lambda>i. count w + int i < limitOf key wt) [0..<length ts]"
      unfolding all_false_map [of "\<lambda>i. count w + int i < limitOf key wt", OF no] by simp
    then show ?thesis
      using c ih by (simp add: case_prod_unfold del: upt_Suc)
  qed
qed

lemma verdicts_after_first:
  assumes "1 \<le> (lim::int)"
  shows "map (\<lambda>i. 1 + int i < lim) [0..<nat lim - 1] = replicate (nat lim - 1) True"
    and "\<not> 1 + int (nat lim - 1) < lim"
proof -
  have "map (\<lambda>i. 1 + int i < lim) [0..<nat lim - 1] = replicate (length [0..<nat lim - 1]) True"
    using assms by (intro all_true_map) auto
  then show "map (\<lambda>i. 1 + int i < lim) [0..<nat lim - 1] = replicate (nat lim - 1) True"
    by simp
  show "\<not> 1 + int (nat lim - 1) < lim" using assms by simp
qed

text \<open>
  From a window without a row, a limit of at least one lets exactly that many checks
  through; the next one is denied, and a check in another fresh window is let through.
\<close>

lemma burst_fresh:
  assumes "windows_ok g" "db_get key_id (apiKeys g) k = Some key"
    and "1 \<le> limitOf key wt"
    and "windowRows g k wt start = []" "windowRows g k wt start' = []" "start' \<noteq> start"
    and "\<forall>t\<in>set ts. windowOf wt t = start" "length ts = nat (limitOf key wt) + 1"
    and "windowOf wt t' = start'"
  shows "fst (checks g k wt (ts @ [t'])) = replicate (nat (limitOf key wt)) True @ [False, True]"
proof -
  from assms(8) obtain t0 rest where ts: "ts = t0 # rest" and len: "length rest = nat (limitOf key wt)"
    by (cases ts) auto
  from assms(7) ts have t0: "windowOf wt t0 = start" and rest: "\<forall>t\<in>set rest. windowOf wt t = start"
    by simp_all
  define row where "row = \<lparr>window_id = gw_nextId g, apiKeyId = k, windowType = wt,
              windowStart = start, count = 1\<rparr>"
  define g1 where "g1 = g\<lparr>apiKeyRateLimits := apiKeyRateLimits g @ [row],
        gw_nextId := Suc (gw_nextId g)\<rparr>"
  have c0: "checkRateLimit g k wt t0 =
     (Inr \<lparr>allowed = True, remaining = limitOf key wt - 1, limit = limitOf key wt,
           resetAt = windowOf wt t0 + windowDuration wt\<rparr>, g1)"
    using check_fresh [OF assms(2), of wt t0] assms(4) t0 by (simp add: g1_def row_def)
  have ok1: "windows_ok g1"
    unfolding g1_def row_def using assms(1,4) by (rule windows_ok_append)
  have k1: "db_get key_id (apiKeys g1) k = Some key" using assms(2) by (simp add: g1_def)
  have r1: "windowRows g1 k wt start = [row]" "windowRows g1 k wt start' = []"
    using assms(4,5,6) by (simp_all add: g1_def windowRows_append) (simp_all add: row_def)
  from burst_existing [OF ok1 k1 r1(1) rest]
  have b: "fst (checks g1 k wt rest) = map (\<lambda>i. 1 + int i < limitOf key wt) [0..<length rest]"
    "windows_ok (snd (checks g1 k wt rest))"
    "apiKeys (snd (checks g1 k wt rest)) = apiKeys g1"
    "windowRows (snd (checks g1 k wt rest)) k wt start' = windowRows g1 k wt start'"
    using assms(6) by (simp_all add: row_def)
  have "nat (limitOf key wt) = Suc (nat (limitOf key wt) - 1)" using assms(3) by simp
  then have "[0..<length rest] = [0..<nat (limitOf key wt) - 1] @ [nat (limitOf key wt) - 1]"
    unfolding len by (metis upt_Suc_append zero_le)
  then have v: "fst (checks g1 k wt rest) = replicate (nat (limitOf key wt) - 1) True @ [False]"
    using b(1) verdicts_after_first [OF assms(3)] by simp
  have last: "checkRateLimit (snd (checks g1 k wt rest)) k wt t' =
     (Inr \<lparr>allowed = True, remaining = limitOf key wt - 1, limit = limitOf key wt,
           resetAt = windowOf wt t' + windowDuration wt\<rparr>,
      (snd (checks g1 k wt rest))\<lparr>apiKeyRateLimits :=
          apiKeyRateLimits (snd (checks g1 k wt rest)) @
            [\<lparr>window_id = gw_nextId (snd (checks g1 k wt rest)), apiKeyId = k, windowType = wt,
              windowStart = windowOf wt t', count = 1\<rparr>],
        gw_nextId := Suc (gw_nextId (snd (checks g1 k wt rest)))\<rparr>)"
    using k1 b(3,4) r1(2) assms(9) by (intro check_fresh) simp_all
  have first: "fst (checks g k wt ts) = True # replicate (nat (limitOf key wt) - 1) True @ [False]"
    "snd (checks g k wt ts) = snd (checks g1 k wt rest)"
    using c0 v by (simp_all add: ts case_prod_unfold)
  have "True # replicate (nat (limitOf key wt) - 1) True = replicate (nat (limitOf key wt)) True"
  proof -
    have "nat (limitOf key wt) = Suc (nat (limitOf key wt) - 1)" using assms(3) by simp
    then have "replicate (nat (limitOf key wt)) True
        = replicate (Suc (nat (limitOf key wt) - 1)) True" by simp
    then show ?thesis by simp
  qed
  then show ?thesis
    using first last by (simp add: checks_append case_prod_unfold)
qed

text \<open>
  C5, as stated, fails for the limit \<open>N = 0\<close>, which \<^verbatim>\<open>create\<close> accepts without any
  check: the first (that is, the \<open>N+1\<close>-th) request of a window finds no row, so the row
  is created with count 1 and the request is allowed. Only the second one is denied.
\<close>

theorem zero_limit_counterexample:
  "limitOf (ex_key 0) Minute = 0
   \<and> db_get key_id (apiKeys (ex_gateway 0)) 3 = Some (ex_key 0)
   \<and> windowOf Minute 60000 = 60000 \<and> windowOf Minute 60500 = 60000
   \<and> fst (checks (ex_gateway 0) 3 Minute [60000]) = [True]
   \<and> fst (checks (ex_gateway 0) 3 Minute [60000]) \<noteq> replicate 0 True @ [False]
   \<and> fst (checks (ex_gateway 0) 3 Minute [60000, 60500]) = [True, False]"
  by (simp add: ex_gateway_def ex_key_def limitOf_def windowOf_def windowDuration_def
      checkRateLimit_def db_get_def db_patch_def Let_def)

text \<open>
  C5, amended. With a well-formed table and an existing key, one check at time \<open>now\<close>
  looks at the rows of \<open>(key, granularity, floor(now / d) * d)\<close>, of which there is at
  most one: without a row it appends one with count 1 and allows; with a row whose count
  is below the limit it raises the count by one and allows; with a row whose count has
  reached the limit it denies and changes nothing. Hence, for a limit \<open>N \<ge> 1\<close>, of
  \<open>N + 1\<close> checks inside one fresh window the first \<open>N\<close> are allowed and the last is
  denied, and a check in another fresh window is allowed again.
\<close>

theorem fixed_window_rate_limit:
  assumes "windows_ok g" "db_get key_id (apiKeys g) k = Some key"
  shows "(windowRows g k wt (windowOf wt now) = [] \<longrightarrow>
            checkRateLimit g k wt now =
              (Inr \<lparr>allowed = True, remaining = limitOf key wt - 1, limit = limitOf key wt,
                    resetAt = windowOf wt now + windowDuration wt\<rparr>,
               g\<lparr>apiKeyRateLimits := apiKeyRateLimits g @
                     [\<lparr>window_id = gw_nextId g, apiKeyId = k, windowType = wt,
                       windowStart = windowOf wt now, count = 1\<rparr>],
                 gw_nextId := Suc (gw_nextId g)\<rparr>))
       \<and> (windowRows g k wt (windowOf wt now) = [w] \<and> count w < limitOf key wt \<longrightarrow>
            checkRateLimit g k wt now =
              (Inr \<lparr>allowed = True, remaining = limitOf key wt - count w - 1,
                    limit = limitOf key wt, resetAt = windowOf wt now + windowDuration wt\<rparr>,
               g\<lparr>apiKeyRateLimits := db_patch window_id (apiKeyRateLimits g) (window_id w)
                     (\<lambda>x. x\<lparr>count := count w + 1\<rparr>)\<rparr>)
            \<and> windowRows (snd (checkRateLimit g k wt now)) k wt (windowOf wt now)
                = [w\<lparr>count := count w + 1\<rparr>])
       \<and> (windowRows g k wt (windowOf wt now) = [w] \<and> limitOf key wt \<le> count w \<longrightarrow>
            checkRateLimit g k wt now =
              (Inr \<lparr>allowed = False, remaining = 0, limit = limitOf key wt,
                    resetAt = windowOf wt now + windowDuration wt\<rparr>, g))
       \<and> length (windowRows g k wt (windowOf wt now)) \<le> 1
       \<and> (1 \<le> limitOf key wt \<and> windowRows g k wt start = []
            \<and> windowRows g k wt start' = [] \<and> start' \<noteq> start
            \<and> (\<forall>t\<in>set ts. windowOf wt t = start) \<and> length ts = nat (limitOf key wt) + 1
            \<and> windowOf wt t' = start' \<longrightarrow>
            fst (checks g k wt (ts @ [t'])) = replicate (nat (limitOf key wt)) True @ [False, True])"
proof -
  have below: "windowRows (snd (checkRateLimit g k wt now)) k wt (windowOf wt now)
                = [w\<lparr>count := count w + 1\<rparr>]"
    if "windowRows g k wt (windowOf wt now) = [w]" "count w < limitOf key wt"
    using check_below [OF assms(2) that] windowRows_patch [OF assms(1) that(1)] by simp
  have atmost: "length (windowRows g k wt (windowOf wt now)) \<le> 1"
    by (rule windowRows_cases [OF assms(1), of k wt "windowOf wt now"]) simp_all
  show ?thesis
    using check_fresh [OF assms(2), of wt now] check_below [OF assms(2), of wt now w]
      check_at_limit [OF assms(2), of wt now w] below atmost
      burst_fresh [OF assms, of wt start start' ts t']
    by simp
qed

theorem fixed_window_rate_limit_witness:
  "fst (checkRateLimit (ex_gateway 2) 3 Minute 60000)
     = Inr \<lparr>allowed = True, remaining = 1, limit = 2, resetAt = 120000\<rparr>
   \<and> map count (apiKeyRateLimits (snd (checkRateLimit (ex_gateway 2) 3 Minute 60000))) = [1]
   \<and> fst (checkRateLimit (ex_gateway_row 2 1) 3 Minute 60500)
     = Inr \<lparr>allowed = True, remaining = 0, limit = 2, resetAt = 120000\<rparr>
   \<and> map count (apiKeyRateLimits (snd (checkRateLimit (ex_gateway_row 2 1) 3 Minute 60500))) = [2]
   \<and> checkRateLimit (ex_gateway_row 2 2) 3 Minute 60500
     = (Inr \<lparr>allowed = False, remaining = 0, limit = 2, resetAt = 120000\<rparr>, ex_gateway_row 2 2)
   \<and> fst (checks (ex_gateway 2) 3 Minute ([60000, 60500, 61000] @ [120000]))
     = [True, True, False, True]"
proof -
  have w: "windowOf Minute 60000 = 60000" "windowOf Minute 60500 = 60000"
    "windowOf Minute 61000 = 60000" "windowOf Minute 120000 = 120000"
    "windowDuration Minute = 60000"
    by (simp_all add: windowOf_def windowDuration_def)
  have ok: "windows_ok (ex_gateway 2)" "windows_ok (ex_gateway_row 2 1)"
    "windows_ok (ex_gateway_row 2 2)"
    by (simp_all add: windows_ok_def ex_gateway_def ex_gateway_row_def)
  have key: "db_get key_id (apiKeys (ex_gateway 2)) 3 = Some (ex_key 2)"
    "db_get key_id (apiKeys (ex_gateway_row 2 1)) 3 = Some (ex_key 2)"
    "db_get key_id (apiKeys (ex_gateway_row 2 2)) 3 = Some (ex_key 2)"
    by (simp_all add: ex_gateway_def ex_gateway_row_def ex_key_def db_get_def)
  have lim: "limitOf (ex_key 2) Minute = 2" by (simp add: limitOf_def ex_key_def)
  have rows: "windowRows (ex_gateway 2) 3 Minute 60000 = []"
    "windowRows (ex_gateway 2) 3 Minute 120000 = []"
    "windowRows (ex_gateway_row 2 1) 3 Minute 60000
       = [\<lparr>window_id = 50, apiKeyId = 3, windowType = Minute, windowStart = 60000, count = 1\<rparr>]"
    "windowRows (ex_gateway_row 2 2) 3 Minute 60000
       = [\<lparr>window_id = 50, apiKeyId = 3, windowType = Minute, windowStart = 60000, count = 2\<rparr>]"
    by (simp_all add: windowRows_def ex_gateway_def ex_gateway_row_def)
  note a = fixed_window_rate_limit [OF ok(1) key(1), where wt = Minute and now = 60000
      and start = 60000 and start' = 120000 and ts = "[60000, 60500, 61000]" and t' = 120000]
  note b = fixed_window_rate_limit [OF ok(2) key(2), where wt = Minute and now = 60500
      and w = "\<lparr>window_id = 50, apiKeyId = 3, windowType = Minute, windowStart = 60000, count = 1\<rparr>"]
  note c = fixed_window_rate_limit [OF ok(3) key(3), where wt = Minute and now = 60500
      and w = "\<lparr>window_id = 50, apiKeyId = 3, windowType = Minute, windowStart = 60000, count = 2\<rparr>"]
  have a': "fst (checkRateLimit (ex_gateway 2) 3 Minute 60000)
     = Inr \<lparr>allowed = True, remaining = 1, limit = 2, resetAt = 120000\<rparr>
     \<and> map count (apiKeyRateLimits (snd (checkRateLimit (ex_gateway 2) 3 Minute 60000))) = [1]
     \<and> fst (checks (ex_gateway 2) 3 Minute ([60000, 60500, 61000] @ [120000]))
         = [True, True, False, True]"
  proof -
    have r: "replicate 2 True = [True, True]" by (simp add: numeral_2_eq_2)
    from a have "checkRateLimit (ex_gateway 2) 3 Minute 60000 =
        (Inr \<lparr>allowed = True, remaining = 1, limit = 2, resetAt = 120000\<rparr>,
         (ex_gateway 2)\<lparr>apiKeyRateLimits := apiKeyRateLimits (ex_gateway 2) @
             [\<lparr>window_id = gw_nextId (ex_gateway 2), apiKeyId = 3, windowType = Minute,
               windowStart = 60000, count = 1\<rparr>],
           gw_nextId := Suc (gw_nextId (ex_gateway 2))\<rparr>)"
      and "fst (checks (ex_gateway 2) 3 Minute ([60000, 60500, 61000] @ [120000]))
         = replicate (nat 2) True @ [False, True]"
      by (simp_all add: w rows lim del: checks.simps)
    then show ?thesis by (simp add: r ex_gateway_def del: checks.simps)
  qed
  have b': "fst (checkRateLimit (ex_gateway_row 2 1) 3 Minute 60500)
     = Inr \<lparr>allowed = True, remaining = 0, limit = 2, resetAt = 120000\<rparr>
     \<and> map count (apiKeyRateLimits (snd (checkRateLimit (ex_gateway_row 2 1) 3 Minute 60500))) = [2]"
    using b by (simp add: w rows lim) (simp add: ex_gateway_row_def db_patch_def)
  have c': "checkRateLimit (ex_gateway_row 2 2) 3 Minute 60500
     = (Inr \<lparr>allowed = False, remaining = 0, limit = 2, resetAt = 120000\<rparr>, ex_gateway_row 2 2)"
    using c by (simp add: w rows lim)
  from a' b' c' show ?thesis by (simp del: checks.simps)
qed

section \<open>The gateway\<close>

lemma checkRateLimit_frame:
  "apiKeys (snd (checkRateLimit g k wt now)) = apiKeys g
   \<and> apiRequestLogs (snd (checkRateLimit g k wt now)) = apiRequestLogs g
   \<and> app (snd (checkRateLimit g k wt now)) = app g"
  by (simp add: checkRateLimit_def Let_def split: option.splits sum.splits)

lemma validateKey_frame:
  "apiKeyRateLimits (snd (validateKey h g key now)) = apiKeyRateLimits g
   \<and> gw_nextId (snd (validateKey h g key now)) = gw_nextId g
   \<and> apiRequestLogs (snd (validateKey h g key now)) = apiRequestLogs g
   \<and> app (snd (validateKey h g key now)) = app g"
  by (simp add: validateKey_def split: option.splits sum.splits)

lemma validateKey_windows_ok:
  "windows_ok g \<Longrightarrow> windows_ok (snd (validateKey h g key now))"
  using validateKey_frame [of h g key now] by (simp add: windows_ok_def)

text \<open>With a well-formed table the rate-limit check never throws.\<close>

lemma checkRateLimit_cases:
  assumes "windows_ok g"
  obtains (no_key) "db_get key_id (apiKeys g) k = None"
      "checkRateLimit g k wt now
         = (Inr \<lparr>allowed = False, remaining = 0, limit = 0, resetAt = 0\<rparr>, g)"
  | (fresh) key where "db_get key_id (apiKeys g) k = Some key"
      "windowRows g k wt (windowOf wt now) = []"
      "checkRateLimit g k wt now =
         (Inr \<lparr>allowed = True, remaining = limitOf key wt - 1, limit = limitOf key wt,
               resetAt = windowOf wt now + windowDuration wt\<rparr>,
          g\<lparr>apiKeyRateLimits := apiKeyRateLimits g @
                [\<lparr>window_id = gw_nextId g, apiKeyId = k, windowType = wt,
                  windowStart = windowOf wt now, count = 1\<rparr>],
            gw_nextId := Suc (gw_nextId g)\<rparr>)"
  | (below) key w where "db_get key_id (apiKeys g) k = Some key"
      "windowRows g k wt (windowOf wt now) = [w]" "count w < limitOf key wt"
      "checkRateLimit g k wt now =
         (Inr \<lparr>allowed = True, remaining = limitOf key wt - count w - 1,
               limit = limitOf key wt, resetAt = windowOf wt now + windowDuration wt\<rparr>,
          g\<lparr>apiKeyRateLimits := db_patch window_id (apiKeyRateLimits g) (window_id w)
                (\<lambda>x. x\<lparr>count := count w + 1\<rparr>)\<rparr>)"
  | (at_limit) key w where "db_get key_id (apiKeys g) k = Some key"
      "windowRows g k wt (windowOf wt now) = [w]" "limitOf key wt \<le> count w"
      "checkRateLimit g k wt now =
         (Inr \<lparr>allowed = False, remaining = 0, limit = limitOf key wt,
               resetAt = windowOf wt now + windowDuration wt\<rparr>, g)"
proof (cases "db_get key_id (apiKeys g) k")
  case None
  then show ?thesis by (intro no_key) (simp_all add: checkRateLimit_def)
next
  case (Some key)
  show ?thesis
  proof (rule windowRows_cases [OF assms, of k wt "windowOf wt now"])
    assume r: "windowRows g k wt (windowOf wt now) = []"
    show ?thesis using Some r check_fresh [OF Some r] by (rule fresh)
  next
    fix w assume r: "windowRows g k wt (windowOf wt now) = [w]"
    show ?thesis
    proof (cases "count w < limitOf key wt")
      case True
      show ?thesis using Some r True check_below [OF Some r True] by (rule below)
    next
      case False
      then have le: "limitOf key wt \<le> count w" by linarith
      show ?thesis using Some r le check_at_limit [OF Some r le] by (rule at_limit)
    qed
  qed
qed

lemma counter_single: "windowRows g k wt start = [w] \<Longrightarrow> counter g k wt start = count w"
  by (simp add: counter_def)

text \<open>
  What one check does to the counters: an allowed check adds one to the counter of its
  own window and leaves every other counter alone; a denied check changes nothing.
\<close>

lemma checkRateLimit_counts:
  assumes "windows_ok g" "checkRateLimit g k wt now = (res, g')"
  shows "windows_ok g' \<and> (\<exists>r. res = Inr r
      \<and> (allowed r \<longrightarrow> counter g' k wt (windowOf wt now) = counter g k wt (windowOf wt now) + 1
            \<and> (\<forall>k' wt' s'. (k', wt', s') \<noteq> (k, wt, windowOf wt now) \<longrightarrow>
                  counter g' k' wt' s' = counter g k' wt' s'))
      \<and> (\<not> allowed r \<longrightarrow> g' = g))"
proof (rule checkRateLimit_cases [OF assms(1), of k wt now])
  assume "checkRateLimit g k wt now
         = (Inr \<lparr>allowed = False, remaining = 0, limit = 0, resetAt = 0\<rparr>, g)"
  with assms show ?thesis by auto
next
  fix key
  assume r: "windowRows g k wt (windowOf wt now) = []"
    and c: "checkRateLimit g k wt now =
         (Inr \<lparr>allowed = True, remaining = limitOf key wt - 1, limit = limitOf key wt,
               resetAt = windowOf wt now + windowDuration wt\<rparr>,
          g\<lparr>apiKeyRateLimits := apiKeyRateLimits g @
                [\<lparr>window_id = gw_nextId g, apiKeyId = k, windowType = wt,
                  windowStart = windowOf wt now, count = 1\<rparr>],
            gw_nextId := Suc (gw_nextId g)\<rparr>)"
  have ok: "windows_ok g'" using c assms windows_ok_append [OF assms(1) r] by simp
  show ?thesis
    using c assms(2) ok r by (auto simp: counter_def windowRows_append)
next
  fix key w
  assume r: "windowRows g k wt (windowOf wt now) = [w]"
    and c: "checkRateLimit g k wt now =
         (Inr \<lparr>allowed = True, remaining = limitOf key wt - count w - 1,
               limit = limitOf key wt, resetAt = windowOf wt now + windowDuration wt\<rparr>,
          g\<lparr>apiKeyRateLimits := db_patch window_id (apiKeyRateLimits g) (window_id w)
                (\<lambda>x. x\<lparr>count := count w + 1\<rparr>)\<rparr>)"
  have ok: "windows_ok g'" using c assms windows_ok_patch [OF assms(1)] by simp
  show ?thesis
    using c assms(2) ok r by (auto simp: counter_def windowRows_patch [OF assms(1) r])
next
  fix key w
  assume "checkRateLimit g k wt now =
         (Inr \<lparr>allowed = False, remaining = 0, limit = limitOf key wt,
               resetAt = windowOf wt now + windowDuration wt\<rparr>, g)"
  with assms show ?thesis by auto
qed

lemma authorizeAndRun_logs:
  "\<exists>msg. apiRequestLogs (snd (authorizeAndRun g k matchedRoute params req clk))
           = apiRequestLogs g
             @ [logEntry k req clk
                  (response_status (fst (authorizeAndRun g k matchedRoute params req clk))) msg]
         \<and> (msg = None) = (\<exists>st. fst (authorizeAndRun g k matchedRoute params req clk) = Success st)"
  by (auto simp: authorizeAndRun_def logRequest_def Let_def split: prod.splits sum.splits)

lemma authorizeAndRun_limits:
  "apiKeyRateLimits (snd (authorizeAndRun g k matchedRoute params req clk)) = apiKeyRateLimits g"
  by (auto simp: authorizeAndRun_def logRequest_def Let_def split: prod.splits sum.splits)

text \<open>
  The authenticated part of the dispatcher, once the key is resolved and the table of
  windows is well formed: the per-minute check cannot throw, so three continuations remain.
\<close>

lemma dispatchRoute_resolved:
  assumes ok: "windows_ok g"
    and r: "routed routes req matchedRoute params"
    and b: "bearer req = Some keyString"
    and v: "validateKey sha256 g keyString (validateTime clk) = (Inr k, g1)"
    and m: "checkRateLimit g1 (key_id k) Minute (minuteTime clk) = (mres, g2)"
    and d: "checkRateLimit g2 (key_id k) Day (dayTime clk) = (dres, g3)"
  obtains (minute_denied) rm where "mres = Inr rm" "\<not> allowed rm" "g2 = g1"
      "dispatchRoute sha256 routes g req clk =
         (Failure RATE_LIMITED ''Rate limit exceeded. Try again later.'' 429,
          logRequest g1 (logEntry k req clk 429 (Some ''Rate limit exceeded'')))"
  | (day_denied) rm rd where "mres = Inr rm" "allowed rm" "dres = Inr rd" "\<not> allowed rd"
      "g3 = g2"
      "dispatchRoute sha256 routes g req clk =
         (Failure RATE_LIMITED ''Daily rate limit exceeded. Try again tomorrow.'' 429,
          logRequest g2 (logEntry k req clk 429 (Some ''Daily rate limit exceeded'')))"
  | (passed) rm rd where "mres = Inr rm" "allowed rm" "dres = Inr rd" "allowed rd"
      "dispatchRoute sha256 routes g req clk = authorizeAndRun g3 k matchedRoute params req clk"
proof -
  have ok1: "windows_ok g1"
    using validateKey_windows_ok [OF ok, of sha256 keyString "validateTime clk"] v by simp
  from checkRateLimit_counts [OF ok1 m] obtain rm where
    ok2: "windows_ok g2" and rm: "mres = Inr rm" and rmd: "\<not> allowed rm \<Longrightarrow> g2 = g1"
    by blast
  from checkRateLimit_counts [OF ok2 d] obtain rd where
    rd: "dres = Inr rd" and rdd: "\<not> allowed rd \<Longrightarrow> g3 = g2"
    by blast
  obtain authHeader where a: "authorization req = Some authHeader"
      "take 7 authHeader = ''Bearer ''" "take 4 (drop 7 authHeader) = ''lgf_''"
      "keyString = drop 7 authHeader"
    using b by (auto simp: bearer_def split: option.splits if_splits)
  have disp: "dispatchRoute sha256 routes g req clk =
      (if \<not> allowed rm
       then (Failure RATE_LIMITED ''Rate limit exceeded. Try again later.'' 429,
             logRequest g2 (logEntry k req clk 429 (Some ''Rate limit exceeded'')))
       else if \<not> allowed rd
       then (Failure RATE_LIMITED ''Daily rate limit exceeded. Try again tomorrow.'' 429,
             logRequest g3 (logEntry k req clk 429 (Some ''Daily rate limit exceeded'')))
       else authorizeAndRun g3 k matchedRoute params req clk)"
    using r a v m d rm rd unfolding routed_def dispatchRoute_def by auto
  show ?thesis
  proof (cases "allowed rm")
    case False
    then show ?thesis using rm rmd disp by (intro minute_denied [of rm]) simp_all
  next
    case True
    show ?thesis
    proof (cases "allowed rd")
      case False
      then show ?thesis using True rm rd rdd disp by (intro day_denied [of rm rd]) simp_all
    next
      case t: True
      then show ?thesis using True rm rd disp by (intro passed [of rm rd]) simp_all
    qed
  qed
qed

text \<open>Rejections before the key is resolved write nothing at all.\<close>

lemma dispatchRoute_unresolved:
  assumes "routed routes req matchedRoute params"
    and "bearer req = None
         \<or> (\<exists>keyString. bearer req = Some keyString
               \<and> isl (fst (validateKey sha256 g keyString (validateTime clk))))"
  shows "apiRequestLogs (snd (dispatchRoute sha256 routes g req clk)) = apiRequestLogs g
    \<and> apiKeyRateLimits (snd (dispatchRoute sha256 routes g req clk)) = apiKeyRateLimits g
    \<and> (\<exists>c m s. fst (dispatchRoute sha256 routes g req clk) = Failure c m s)"
proof -
  from assms(2) show ?thesis
  proof
    assume "bearer req = None"
    then show ?thesis
      using assms(1) unfolding routed_def dispatchRoute_def bearer_def
      by (auto split: option.splits if_splits)
  next
    assume "\<exists>keyString. bearer req = Some keyString
               \<and> isl (fst (validateKey sha256 g keyString (validateTime clk)))"
    then obtain keyString where b: "bearer req = Some keyString"
      and i: "isl (fst (validateKey sha256 g keyString (validateTime clk)))" by blast
    obtain authHeader where a: "authorization req = Some authHeader"
      "take 7 authHeader = ''Bearer ''" "take 4 (drop 7 authHeader) = ''lgf_''"
      "keyString = drop 7 authHeader"
      using b by (auto simp: bearer_def split: option.splits if_splits)
    obtain e g1 where v: "validateKey sha256 g keyString (validateTime clk) = (Inl e, g1)"
      using i by (cases "validateKey sha256 g keyString (validateTime clk)") (auto simp: isl_def)
    have "g1 = g" using v by (auto simp: validateKey_def split: sum.splits option.splits if_splits)
    then show ?thesis
      using assms(1) a v unfolding routed_def dispatchRoute_def
      by (auto split: prod.splits)
  qed
qed

lemma ex_routed:
  "routed (ex_routes perm h) ex_request
     \<lparr>pattern = ''/api/v1/cards'', route_method = ''GET'', permission = Some perm,
      handler = h\<rparr> []"
  by (simp add: routed_def ex_routes_def ex_request_def matchRoute_def segments_def)

lemma ex_bearer: "bearer ex_request = Some ''lgf_k''"
  by (simp add: bearer_def ex_request_def)

lemma ex_validateKey:
  "validateKey (\<lambda>x. x) (ex_gateway lim) ''lgf_k'' 60001
     = (Inr (ex_key lim), (ex_gateway lim)\<lparr>apiKeys := [(ex_key lim)\<lparr>key_lastUsedAt := Some 60001\<rparr>]\<rparr>)"
  "validateKey (\<lambda>x. x) (ex_gateway_row lim n) ''lgf_k'' 60001
     = (Inr (ex_key lim),
        (ex_gateway_row lim n)\<lparr>apiKeys := [(ex_key lim)\<lparr>key_lastUsedAt := Some 60001\<rparr>]\<rparr>)"
  by (simp_all add: validateKey_def ex_gateway_def ex_gateway_row_def ex_key_def db_patch_def)

lemma ex_windows_ok: "windows_ok (ex_gateway lim)" "windows_ok (ex_gateway_row lim n)"
  by (simp_all add: windows_ok_def ex_gateway_def ex_gateway_row_def)

lemma ex_responses:
  "fst (dispatchRoute (\<lambda>x. x) (ex_routes ''cards:update'' ex_ok_handler) (ex_gateway 2)
          ex_request ex_clock)
     = Failure PERMISSION_DENIED ''API key missing required permission: cards:update'' 403"
  "fst (dispatchRoute (\<lambda>x. x) (ex_routes ''cards:read'' ex_failing_handler) (ex_gateway 2)
          ex_request ex_clock)
     = Failure NOT_FOUND ''Card not found'' 404"
  "fst (dispatchRoute (\<lambda>x. x) (ex_routes ''cards:read'' ex_ok_handler) (ex_gateway 2)
          ex_request ex_clock)
     = Success 200"
  "fst (dispatchRoute (\<lambda>x. x) (ex_routes ''cards:read'' ex_ok_handler) (ex_gateway_row 2 2)
          ex_request ex_clock)
     = Failure RATE_LIMITED ''Rate limit exceeded. Try again later.'' 429"
  by (simp_all add: dispatchRoute_def ex_routes_def ex_request_def ex_clock_def
      matchRoute_def segments_def validateKey_def ex_gateway_def ex_gateway_row_def ex_key_def
      db_patch_def db_get_def checkRateLimit_def authorizeAndRun_def hasPermission_def
      ex_ok_handler_def ex_failing_handler_def logRequest_def errorCodeToStatus_def)

text \<open>
  C9. On a route that requires a permission, once the key presented by the request has
  been resolved, the dispatcher appends exactly one record to the request log, whatever
  the outcome: the record carries the key, the method, the path, the status code of the
  response, the duration, the caller's address and user agent, and an error message
  exactly when the response is not a success. When no key is resolved (the header is
  missing or malformed, the key has a bad format, or validation rejects it) the log is
  left as it was.
\<close>

theorem one_request_log_after_key_resolution:
  assumes "windows_ok g" and "routed routes req matchedRoute params"
  shows "(\<forall>keyString k g1.
            bearer req = Some keyString
            \<and> validateKey sha256 g keyString (validateTime clk) = (Inr k, g1) \<longrightarrow>
            (\<exists>msg. apiRequestLogs (snd (dispatchRoute sha256 routes g req clk))
                     = apiRequestLogs g
                       @ [logEntry k req clk
                            (response_status (fst (dispatchRoute sha256 routes g req clk))) msg]
                  \<and> (msg = None)
                    = (\<exists>st. fst (dispatchRoute sha256 routes g req clk) = Success st)))
       \<and> (bearer req = None
            \<or> (\<exists>keyString. bearer req = Some keyString
                  \<and> isl (fst (validateKey sha256 g keyString (validateTime clk)))) \<longrightarrow>
          apiRequestLogs (snd (dispatchRoute sha256 routes g req clk)) = apiRequestLogs g)"
proof (intro conjI allI impI)
  fix keyString k g1
  assume a: "bearer req = Some keyString
             \<and> validateKey sha256 g keyString (validateTime clk) = (Inr k, g1)"
  define g2 where "g2 = snd (checkRateLimit g1 (key_id k) Minute (minuteTime clk))"
  define g3 where "g3 = snd (checkRateLimit g2 (key_id k) Day (dayTime clk))"
  have m: "checkRateLimit g1 (key_id k) Minute (minuteTime clk)
             = (fst (checkRateLimit g1 (key_id k) Minute (minuteTime clk)), g2)"
    by (simp add: g2_def)
  have d: "checkRateLimit g2 (key_id k) Day (dayTime clk)
             = (fst (checkRateLimit g2 (key_id k) Day (dayTime clk)), g3)"
    by (simp add: g3_def)
  have l1: "apiRequestLogs g1 = apiRequestLogs g"
    using validateKey_frame [of sha256 g keyString "validateTime clk"] a by simp
  have l2: "apiRequestLogs g2 = apiRequestLogs g1"
    using checkRateLimit_frame [of g1 "key_id k" Minute "minuteTime clk"] by (simp add: g2_def)
  have l3: "apiRequestLogs g3 = apiRequestLogs g2"
    using checkRateLimit_frame [of g2 "key_id k" Day "dayTime clk"] by (simp add: g3_def)
  let ?D = "dispatchRoute sha256 routes g req clk"
  show "\<exists>msg. apiRequestLogs (snd ?D)
                 = apiRequestLogs g @ [logEntry k req clk (response_status (fst ?D)) msg]
              \<and> (msg = None) = (\<exists>st. fst ?D = Success st)"
  proof (rule dispatchRoute_resolved [OF assms(1) assms(2) conjunct1 [OF a] conjunct2 [OF a] m d])
    fix rm
    assume "?D = (Failure RATE_LIMITED ''Rate limit exceeded. Try again later.'' 429,
                  logRequest g1 (logEntry k req clk 429 (Some ''Rate limit exceeded'')))"
    then show ?thesis by (auto simp: logRequest_def l1)
  next
    fix rm rd
    assume "?D = (Failure RATE_LIMITED ''Daily rate limit exceeded. Try again tomorrow.'' 429,
                  logRequest g2 (logEntry k req clk 429 (Some ''Daily rate limit exceeded'')))"
    then show ?thesis by (auto simp: logRequest_def l1 l2)
  next
    fix rm rd
    assume "?D = authorizeAndRun g3 k matchedRoute params req clk"
    then show ?thesis
      using authorizeAndRun_logs [of g3 k matchedRoute params req clk] by (simp add: l1 l2 l3)
  qed
next
  assume "bearer req = None
          \<or> (\<exists>keyString. bearer req = Some keyString
                \<and> isl (fst (validateKey sha256 g keyString (validateTime clk))))"
  from dispatchRoute_unresolved [OF assms(2) this]
  show "apiRequestLogs (snd (dispatchRoute sha256 routes g req clk)) = apiRequestLogs g"
    by simp
qed

theorem one_request_log_after_key_resolution_witness:
  "map statusCode (apiRequestLogs (snd (dispatchRoute (\<lambda>x. x)
        (ex_routes ''cards:update'' ex_ok_handler) (ex_gateway 2) ex_request ex_clock))) = [403]
   \<and> map statusCode (apiRequestLogs (snd (dispatchRoute (\<lambda>x. x)
        (ex_routes ''cards:read'' ex_failing_handler) (ex_gateway 2) ex_request ex_clock))) = [404]
   \<and> map statusCode (apiRequestLogs (snd (dispatchRoute (\<lambda>x. x)
        (ex_routes ''cards:read'' ex_ok_handler) (ex_gateway 2) ex_request ex_clock))) = [200]
   \<and> map statusCode (apiRequestLogs (snd (dispatchRoute (\<lambda>x. x)
        (ex_routes ''cards:read'' ex_ok_handler) (ex_gateway_row 2 2) ex_request ex_clock))) = [429]
   \<and> map errorMessage (apiRequestLogs (snd (dispatchRoute (\<lambda>x. x)
        (ex_routes ''cards:read'' ex_ok_handler) (ex_gateway 2) ex_request ex_clock))) = [None]
   \<and> map log_path (apiRequestLogs (snd (dispatchRoute (\<lambda>x. x)
        (ex_routes ''cards:update'' ex_ok_handler) (ex_gateway 2) ex_request ex_clock)))
       = [''/api/v1/cards'']
   \<and> map durationMs (apiRequestLogs (snd (dispatchRoute (\<lambda>x. x)
        (ex_routes ''cards:update'' ex_ok_handler) (ex_gateway 2) ex_request ex_clock))) = [10]
   \<and> apiRequestLogs (snd (dispatchRoute (\<lambda>x. x) (ex_routes ''cards:read'' ex_ok_handler)
        (ex_gateway 2) (ex_request\<lparr>authorization := Some ''Bearer sk_k''\<rparr>) ex_clock)) = []"
proof -
  have logs: "apiRequestLogs (ex_gateway 2) = []" "apiRequestLogs (ex_gateway_row 2 2) = []"
    by (simp_all add: ex_gateway_def ex_gateway_row_def)
  have r': "routed (ex_routes ''cards:read'' ex_ok_handler)
      (ex_request\<lparr>authorization := Some ''Bearer sk_k''\<rparr>)
      \<lparr>pattern = ''/api/v1/cards'', route_method = ''GET'', permission = Some ''cards:read'',
       handler = ex_ok_handler\<rparr> []"
    using ex_routed [of "''cards:read''" ex_ok_handler] by (simp add: routed_def ex_request_def)
  have b': "bearer (ex_request\<lparr>authorization := Some ''Bearer sk_k''\<rparr>) = None"
    by (simp add: bearer_def ex_request_def)
  note a = one_request_log_after_key_resolution [where ?sha256.0 = "\<lambda>x. x" and clk = ex_clock,
      OF ex_windows_ok(1) [of 2] ex_routed [of "''cards:update''" ex_ok_handler],
      THEN conjunct1, rule_format, OF conjI [OF ex_bearer]]
  note b = one_request_log_after_key_resolution [where ?sha256.0 = "\<lambda>x. x" and clk = ex_clock,
      OF ex_windows_ok(1) [of 2] ex_routed [of "''cards:read''" ex_failing_handler],
      THEN conjunct1, rule_format, OF conjI [OF ex_bearer]]
  note c = one_request_log_after_key_resolution [where ?sha256.0 = "\<lambda>x. x" and clk = ex_clock,
      OF ex_windows_ok(1) [of 2] ex_routed [of "''cards:read''" ex_ok_handler],
      THEN conjunct1, rule_format, OF conjI [OF ex_bearer]]
  note d = one_request_log_after_key_resolution [where ?sha256.0 = "\<lambda>x. x" and clk = ex_clock,
      OF ex_windows_ok(2) [of 2 2] ex_routed [of "''cards:read''" ex_ok_handler],
      THEN conjunct1, rule_format, OF conjI [OF ex_bearer]]
  note e = one_request_log_after_key_resolution [where ?sha256.0 = "\<lambda>x. x" and clk = ex_clock,
      OF ex_windows_ok(1) [of 2] r', THEN conjunct2, rule_format, OF disjI1 [OF b']]
  have t: "validateTime ex_clock = 60001" by (simp add: ex_clock_def)
  have f: "key_id (ex_key 2) = 3" "req_pathname ex_request = ''/api/v1/cards''"
    "endTime ex_clock - startTime ex_clock = 10"
    by (simp_all add: ex_key_def ex_request_def ex_clock_def)
  from a [simplified t, OF ex_validateKey(1)] have a':
    "map statusCode (apiRequestLogs (snd (dispatchRoute (\<lambda>x. x)
        (ex_routes ''cards:update'' ex_ok_handler) (ex_gateway 2) ex_request ex_clock))) = [403]
     \<and> map log_path (apiRequestLogs (snd (dispatchRoute (\<lambda>x. x)
        (ex_routes ''cards:update'' ex_ok_handler) (ex_gateway 2) ex_request ex_clock)))
       = [''/api/v1/cards'']
     \<and> map durationMs (apiRequestLogs (snd (dispatchRoute (\<lambda>x. x)
        (ex_routes ''cards:update'' ex_ok_handler) (ex_gateway 2) ex_request ex_clock))) = [10]"
    unfolding ex_responses logs by (elim exE conjE) (simp add: logEntry_def f)
  from b [simplified t, OF ex_validateKey(1)] have b':
    "map statusCode (apiRequestLogs (snd (dispatchRoute (\<lambda>x. x)
        (ex_routes ''cards:read'' ex_failing_handler) (ex_gateway 2) ex_request ex_clock))) = [404]"
    unfolding ex_responses logs by (elim exE conjE) (simp add: logEntry_def)
  from c [simplified t, OF ex_validateKey(1)] have c':
    "map statusCode (apiRequestLogs (snd (dispatchRoute (\<lambda>x. x)
        (ex_routes ''cards:read'' ex_ok_handler) (ex_gateway 2) ex_request ex_clock))) = [200]
     \<and> map errorMessage (apiRequestLogs (snd (dispatchRoute (\<lambda>x. x)
        (ex_routes ''cards:read'' ex_ok_handler) (ex_gateway 2) ex_request ex_clock))) = [None]"
    unfolding ex_responses logs by (elim exE conjE) (simp add: logEntry_def)
  from d [simplified t, OF ex_validateKey(2)] have d':
    "map statusCode (apiRequestLogs (snd (dispatchRoute (\<lambda>x. x)
        (ex_routes ''cards:read'' ex_ok_handler) (ex_gateway_row 2 2) ex_request ex_clock))) = [429]"
    unfolding ex_responses logs by (elim exE conjE) (simp add: logEntry_def)
  from e have e':
    "apiRequestLogs (snd (dispatchRoute (\<lambda>x. x) (ex_routes ''cards:read'' ex_ok_handler)
        (ex_gateway 2) (ex_request\<lparr>authorization := Some ''Bearer sk_k''\<rparr>) ex_clock)) = []"
    by (simp only: logs)
  show ?thesis
    by (intro conjI) (simp_all only: a' b' c' d' e')
qed

section \<open>Rate-limit counters of refused requests\<close>

lemma counter_cong:
  "apiKeyRateLimits g' = apiKeyRateLimits g \<Longrightarrow> counter g' k wt s = counter g k wt s"
  by (simp add: counter_def windowRows_def)

lemma ex_minute_checks:
  "fst (checkRateLimit ((ex_gateway 2)\<lparr>apiKeys := [(ex_key 2)\<lparr>key_lastUsedAt := Some 60001\<rparr>]\<rparr>)
          3 Minute 60002)
     = Inr \<lparr>allowed = True, remaining = 1, limit = 2, resetAt = 120000\<rparr>"
  "fst (checkRateLimit
          (snd (checkRateLimit
                  ((ex_gateway 2)\<lparr>apiKeys := [(ex_key 2)\<lparr>key_lastUsedAt := Some 60001\<rparr>]\<rparr>)
                  3 Minute 60002))
          3 Day 60003)
     = Inr \<lparr>allowed = True, remaining = 9999, limit = 10000, resetAt = 86400000\<rparr>"
  "fst (checkRateLimit
          ((ex_gateway_row 2 2)\<lparr>apiKeys := [(ex_key 2)\<lparr>key_lastUsedAt := Some 60001\<rparr>]\<rparr>)
          3 Minute 60002)
     = Inr \<lparr>allowed = False, remaining = 0, limit = 2, resetAt = 120000\<rparr>"
  by (simp_all add: checkRateLimit_def ex_gateway_def ex_gateway_row_def ex_key_def db_get_def)

text \<open>
  C10. On a route that requires a permission, a request whose key is resolved and which
  passes the per-minute and the per-day check leaves the table of rate-limit windows
  exactly as the two checks left it, whatever the required permission and whatever the
  handler does: the counter of the key's minute window and the counter of its day window
  are each one higher than before the request, also when the response is 403 or a
  handler failure. A request denied by the per-minute check leaves the table as it was,
  so the day counter is not incremented.
\<close>

theorem refused_requests_consume_quota:
  assumes "windows_ok g" and "routed routes req matchedRoute params"
    and "bearer req = Some keyString"
    and "validateKey sha256 g keyString (validateTime clk) = (Inr k, g1)"
    and "checkRateLimit g1 (key_id k) Minute (minuteTime clk) = (Inr rm, g2)"
    and "checkRateLimit g2 (key_id k) Day (dayTime clk) = (Inr rd, g3)"
  shows "(allowed rm \<and> allowed rd \<longrightarrow>
            apiKeyRateLimits (snd (dispatchRoute sha256 routes g req clk)) = apiKeyRateLimits g3
            \<and> counter (snd (dispatchRoute sha256 routes g req clk)) (key_id k) Minute
                 (windowOf Minute (minuteTime clk))
               = counter g (key_id k) Minute (windowOf Minute (minuteTime clk)) + 1
            \<and> counter (snd (dispatchRoute sha256 routes g req clk)) (key_id k) Day
                 (windowOf Day (dayTime clk))
               = counter g (key_id k) Day (windowOf Day (dayTime clk)) + 1)
       \<and> (\<not> allowed rm \<longrightarrow>
            apiKeyRateLimits (snd (dispatchRoute sha256 routes g req clk)) = apiKeyRateLimits g)"
proof -
  let ?D = "dispatchRoute sha256 routes g req clk"
  let ?m = "windowOf Minute (minuteTime clk)"
  let ?d = "windowOf Day (dayTime clk)"
  have ok1: "windows_ok g1"
    using validateKey_windows_ok [OF assms(1), of sha256 keyString "validateTime clk"] assms(4)
    by simp
  have t1: "apiKeyRateLimits g1 = apiKeyRateLimits g"
    using validateKey_frame [of sha256 g keyString "validateTime clk"] assms(4) by simp
  from checkRateLimit_counts [OF ok1 assms(5)] have
    ok2: "windows_ok g2"
    and cm: "allowed rm \<Longrightarrow> counter g2 (key_id k) Minute ?m = counter g1 (key_id k) Minute ?m + 1"
    and om: "allowed rm \<Longrightarrow> counter g2 (key_id k) Day ?d = counter g1 (key_id k) Day ?d"
    by auto
  from checkRateLimit_counts [OF ok2 assms(6)] have
    cd: "allowed rd \<Longrightarrow> counter g3 (key_id k) Day ?d = counter g2 (key_id k) Day ?d + 1"
    and od: "allowed rd \<Longrightarrow> counter g3 (key_id k) Minute ?m = counter g2 (key_id k) Minute ?m"
    by auto
  show ?thesis
  proof (rule dispatchRoute_resolved [OF assms])
    fix rm'
    assume h: "Inr rm = Inr rm'" "\<not> allowed rm'" "g2 = g1"
      "?D = (Failure RATE_LIMITED ''Rate limit exceeded. Try again later.'' 429,
             logRequest g1 (logEntry k req clk 429 (Some ''Rate limit exceeded'')))"
    then show ?thesis by (simp add: logRequest_def t1)
  next
    fix rm' rd'
    assume h: "Inr rm = Inr rm'" "allowed rm'" "Inr rd = Inr rd'" "\<not> allowed rd'"
    then show ?thesis by simp
  next
    fix rm' rd'
    assume h: "Inr rm = Inr rm'" "allowed rm'" "Inr rd = Inr rd'" "allowed rd'"
      "?D = authorizeAndRun g3 k matchedRoute params req clk"
    have l: "apiKeyRateLimits (snd ?D) = apiKeyRateLimits g3"
      using h(5) authorizeAndRun_limits [of g3 k matchedRoute params req clk] by simp
    have a: "allowed rm" "allowed rd" using h by simp_all
    have "counter (snd ?D) (key_id k) Minute ?m = counter g (key_id k) Minute ?m + 1"
      using counter_cong [OF l] counter_cong [OF t1] cm [OF a(1)] od [OF a(2)] by simp
    moreover have "counter (snd ?D) (key_id k) Day ?d = counter g (key_id k) Day ?d + 1"
      using counter_cong [OF l] counter_cong [OF t1] cd [OF a(2)] om [OF a(1)] by simp
    ultimately show ?thesis using l a by simp
  qed
qed

theorem refused_requests_consume_quota_witness:
  "fst (dispatchRoute (\<lambda>x. x) (ex_routes ''cards:update'' ex_ok_handler) (ex_gateway 2)
          ex_request ex_clock)
     = Failure PERMISSION_DENIED ''API key missing required permission: cards:update'' 403
   \<and> counter (snd (dispatchRoute (\<lambda>x. x) (ex_routes ''cards:update'' ex_ok_handler)
        (ex_gateway 2) ex_request ex_clock)) 3 Minute 60000 = 1
   \<and> counter (snd (dispatchRoute (\<lambda>x. x) (ex_routes ''cards:update'' ex_ok_handler)
        (ex_gateway 2) ex_request ex_clock)) 3 Day 0 = 1
   \<and> counter (snd (dispatchRoute (\<lambda>x. x) (ex_routes ''cards:read'' ex_failing_handler)
        (ex_gateway 2) ex_request ex_clock)) 3 Minute 60000 = 1
   \<and> counter (snd (dispatchRoute (\<lambda>x. x) (ex_routes ''cards:read'' ex_failing_handler)
        (ex_gateway 2) ex_request ex_clock)) 3 Day 0 = 1
   \<and> apiKeyRateLimits (snd (dispatchRoute (\<lambda>x. x) (ex_routes ''cards:read'' ex_ok_handler)
        (ex_gateway_row 2 2) ex_request ex_clock))
       = [\<lparr>window_id = 50, apiKeyId = 3, windowType = Minute, windowStart = 60000, count = 2\<rparr>]"
proof -
  let ?g1 = "(ex_gateway 2)\<lparr>apiKeys := [(ex_key 2)\<lparr>key_lastUsedAt := Some 60001\<rparr>]\<rparr>"
  let ?g2 = "snd (checkRateLimit ?g1 3 Minute 60002)"
  let ?g3 = "snd (checkRateLimit ?g2 3 Day 60003)"
  let ?h1 = "(ex_gateway_row 2 2)\<lparr>apiKeys := [(ex_key 2)\<lparr>key_lastUsedAt := Some 60001\<rparr>]\<rparr>"
  let ?h2 = "snd (checkRateLimit ?h1 3 Minute 60002)"
  let ?h3 = "snd (checkRateLimit ?h2 3 Day 60003)"
  have f: "key_id (ex_key 2) = 3" "validateTime ex_clock = 60001" "minuteTime ex_clock = 60002"
    "dayTime ex_clock = 60003" "windowOf Minute 60002 = 60000" "windowOf Day 60003 = 0"
    by (simp_all add: ex_key_def ex_clock_def windowOf_def windowDuration_def)
  have m: "checkRateLimit ?g1 (key_id (ex_key 2)) Minute (minuteTime ex_clock)
             = (Inr \<lparr>allowed = True, remaining = 1, limit = 2, resetAt = 120000\<rparr>, ?g2)"
    unfolding f using ex_minute_checks(1) by (simp add: prod_eq_iff)
  have d: "checkRateLimit ?g2 (key_id (ex_key 2)) Day (dayTime ex_clock)
             = (Inr \<lparr>allowed = True, remaining = 9999, limit = 10000, resetAt = 86400000\<rparr>, ?g3)"
    unfolding f using ex_minute_checks(2) by (simp add: prod_eq_iff)
  have m': "checkRateLimit ?h1 (key_id (ex_key 2)) Minute (minuteTime ex_clock)
             = (Inr \<lparr>allowed = False, remaining = 0, limit = 2, resetAt = 120000\<rparr>, ?h2)"
    unfolding f using ex_minute_checks(3) by (simp add: prod_eq_iff)
  obtain rd' where d': "checkRateLimit ?h2 (key_id (ex_key 2)) Day (dayTime ex_clock)
             = (Inr rd', ?h3)"
    using checkRateLimit_counts [of ?h2 3 Day 60003 "fst (checkRateLimit ?h2 3 Day 60003)" ?h3]
      checkRateLimit_counts [of ?h1 3 Minute 60002 "fst (checkRateLimit ?h1 3 Minute 60002)" ?h2]
      ex_windows_ok(2) [of 2 2]
    unfolding f by (auto simp: windows_ok_def prod_eq_iff)
  have v: "validateKey (\<lambda>x. x) (ex_gateway 2) ''lgf_k'' (validateTime ex_clock) = (Inr (ex_key 2), ?g1)"
    "validateKey (\<lambda>x. x) (ex_gateway_row 2 2) ''lgf_k'' (validateTime ex_clock)
       = (Inr (ex_key 2), ?h1)"
    unfolding f by (rule ex_validateKey)+
  have z: "counter (ex_gateway 2) 3 Minute 60000 = 0" "counter (ex_gateway 2) 3 Day 0 = 0"
    "apiKeyRateLimits (ex_gateway_row 2 2)
       = [\<lparr>window_id = 50, apiKeyId = 3, windowType = Minute, windowStart = 60000, count = 2\<rparr>]"
    by (simp_all add: counter_def windowRows_def ex_gateway_def ex_gateway_row_def)
  note a = refused_requests_consume_quota [OF ex_windows_ok(1) [of 2]
      ex_routed [of "''cards:update''" ex_ok_handler] ex_bearer v(1) m d]
  note b = refused_requests_consume_quota [OF ex_windows_ok(1) [of 2]
      ex_routed [of "''cards:read''" ex_failing_handler] ex_bearer v(1) m d]
  note c = refused_requests_consume_quota [OF ex_windows_ok(2) [of 2 2]
      ex_routed [of "''cards:read''" ex_ok_handler] ex_bearer v(2) m' d']
  show ?thesis
    using a b c unfolding f z by (simp add: ex_responses(1))
qed

section \<open>Webhook retries and auto-disable\<close>












section \<open>Redeeming more than the balance\<close>

lemma redeemTail_over:
  "found = Some c \<Longrightarrow> currentBalance c < amt \<or> amt \<le> 0 \<Longrightarrow>
   rejected (redeemTail s found mid amt by bt m now) s"
  by (auto simp: redeemTail_def rejected_def split: option.splits sum.splits prod.splits)

lemma redeemTail_insufficient:
  "found = Some c \<Longrightarrow> merchantId c = mid \<Longrightarrow> validateCardUsable c now = Inr () \<Longrightarrow>
   0 < amt \<Longrightarrow> currentBalance c < amt \<Longrightarrow>
   redeemTail s found mid amt by bt m now = (Inl INSUFFICIENT_BALANCE, s)"
  by (simp add: redeemTail_def)

text \<open>
  C4, as stated, fails: a redemption of 200 from a suspended card that holds 100 is
  refused with \<open>CARD_INACTIVE\<close>, not with \<open>INSUFFICIENT_BALANCE\<close>, because
  \<^verbatim>\<open>validateCardUsable\<close> runs before the amount checks.
\<close>

theorem redeem_suspended_counterexample:
  "currentBalance (ex_card Suspended 100 100) < 200
   \<and> db_get card_id (cards (ex_store Suspended)) 10 = Some (ex_card Suspended 100 100)
   \<and> redeem (ex_store Suspended) (Inr ex_ctx) 1 10 200 1000
       = (Inl CARD_INACTIVE, ex_store Suspended)
   \<and> fst (redeem (ex_store Suspended) (Inr ex_ctx) 1 10 200 1000) \<noteq> Inl INSUFFICIENT_BALANCE"
  by (simp add: redeem_def redeemTail_def ex_store_def ex_card_def db_get_def
      validateCardUsable_def)

text \<open>
  C4, amended. For each of the three lookups (by card id, by hashed code, by hashed
  track data), in the portal mutation and in its API twin: when the card found has a
  balance below the amount, or the amount is not positive, the call throws and leaves
  the store (balances and log) as it was. When moreover the caller is authorised, the
  card belongs to the merchant, the card is usable and the amount is positive, the error
  is \<open>INSUFFICIENT_BALANCE\<close>.
\<close>

theorem redeem_over_balance_rejected:
  assumes "currentBalance c < amt \<or> amt \<le> 0"
  shows "(db_get card_id (cards s) cid = Some c \<longrightarrow>
            rejected (redeem s auth mid cid amt now) s
          \<and> rejected (apiRedeem s mid cid amt key now) s
          \<and> (merchantId c = mid \<and> validateCardUsable c now = Inr () \<and> 0 < amt \<longrightarrow>
               redeem s (Inr mc) mid cid amt now = (Inl INSUFFICIENT_BALANCE, s)
             \<and> apiRedeem s mid cid amt key now = (Inl INSUFFICIENT_BALANCE, s)))
       \<and> (unique (filter (\<lambda>x. codeHash x = h code) (cards s)) = Inr (Some c) \<longrightarrow>
            rejected (redeemByCode h s auth mid code amt now) s
          \<and> rejected (apiRedeemByCode h s mid code amt key now) s
          \<and> (merchantId c = mid \<and> validateCardUsable c now = Inr () \<and> 0 < amt \<longrightarrow>
               redeemByCode h s (Inr mc) mid code amt now = (Inl INSUFFICIENT_BALANCE, s)
             \<and> apiRedeemByCode h s mid code amt key now = (Inl INSUFFICIENT_BALANCE, s)))
       \<and> (unique (filter (\<lambda>x. trackDataHash x = Some (h td)) (cards s)) = Inr (Some c) \<longrightarrow>
            rejected (redeemByTrackData h s auth mid td amt now) s
          \<and> rejected (apiRedeemByTrackData h s mid td amt key now) s
          \<and> (merchantId c = mid \<and> validateCardUsable c now = Inr () \<and> 0 < amt \<longrightarrow>
               redeemByTrackData h s (Inr mc) mid td amt now = (Inl INSUFFICIENT_BALANCE, s)
             \<and> apiRedeemByTrackData h s mid td amt key now
                 = (Inl INSUFFICIENT_BALANCE, s)))"
proof -
  have over: "rejected (redeemTail s (Some c) mid amt b bt m now) s" for b bt m
    using assms by (rule redeemTail_over [OF refl])
  have kind: "redeemTail s (Some c) mid amt b bt m now = (Inl INSUFFICIENT_BALANCE, s)"
    if "merchantId c = mid" "validateCardUsable c now = Inr ()" "0 < amt" for b bt m
    using assms that by (intro redeemTail_insufficient) auto
  have by_id: "db_get card_id (cards s) cid = Some c \<Longrightarrow>
      rejected (redeem s auth mid cid amt now) s \<and> rejected (apiRedeem s mid cid amt key now) s"
    using over by (cases auth) (simp_all add: redeem_def apiRedeem_def rejected_def)
  have by_code: "unique (filter (\<lambda>x. codeHash x = h code) (cards s)) = Inr (Some c) \<Longrightarrow>
      rejected (redeemByCode h s auth mid code amt now) s
      \<and> rejected (apiRedeemByCode h s mid code amt key now) s"
    using over by (cases auth) (simp_all add: redeemByCode_def apiRedeemByCode_def rejected_def)
  have by_track: "unique (filter (\<lambda>x. trackDataHash x = Some (h td)) (cards s)) = Inr (Some c) \<Longrightarrow>
      rejected (redeemByTrackData h s auth mid td amt now) s
      \<and> rejected (apiRedeemByTrackData h s mid td amt key now) s"
    using over
    by (cases auth) (simp_all add: redeemByTrackData_def apiRedeemByTrackData_def rejected_def)
  show ?thesis
    using by_id by_code by_track kind
    by (simp add: redeem_def apiRedeem_def redeemByCode_def apiRedeemByCode_def
        redeemByTrackData_def apiRedeemByTrackData_def)
qed

theorem redeem_over_balance_rejected_witness:
  "rejected (redeem (ex_store Active) (Inl UNAUTHORIZED) 1 10 200 1000) (ex_store Active)
   \<and> redeem (ex_store Active) (Inr ex_ctx) 1 10 200 1000
       = (Inl INSUFFICIENT_BALANCE, ex_store Active)
   \<and> apiRedeem (ex_store Active) 1 10 200 3 1000 = (Inl INSUFFICIENT_BALANCE, ex_store Active)
   \<and> redeemByCode (\<lambda>x. x) (ex_store Active) (Inr ex_ctx) 1 ''c0de'' 200 1000
       = (Inl INSUFFICIENT_BALANCE, ex_store Active)
   \<and> apiRedeemByCode (\<lambda>x. x) (ex_store Active) 1 ''c0de'' 200 3 1000
       = (Inl INSUFFICIENT_BALANCE, ex_store Active)
   \<and> redeemByTrackData (\<lambda>x. x) (ex_store Active) (Inr ex_ctx) 1 ''7rack'' 200 1000
       = (Inl INSUFFICIENT_BALANCE, ex_store Active)
   \<and> apiRedeemByTrackData (\<lambda>x. x) (ex_store Active) 1 ''7rack'' 200 3 1000
       = (Inl INSUFFICIENT_BALANCE, ex_store Active)"
proof -
  have a: "currentBalance (ex_card Active 100 100) < 200 \<or> (200::int) \<le> 0"
    by (simp add: ex_card_def)
  have g: "db_get card_id (cards (ex_store Active)) 10 = Some (ex_card Active 100 100)"
    by (simp add: ex_store_def ex_card_def db_get_def)
  have c: "unique (filter (\<lambda>x. codeHash x = (\<lambda>x. x) ''c0de'') (cards (ex_store Active)))
      = Inr (Some (ex_card Active 100 100))"
    by (simp add: ex_store_def ex_card_def)
  have t: "unique (filter (\<lambda>x. trackDataHash x = Some ((\<lambda>x. x) ''7rack''))
      (cards (ex_store Active))) = Inr (Some (ex_card Active 100 100))"
    by (simp add: ex_store_def ex_card_def)
  have u: "merchantId (ex_card Active 100 100) = 1
      \<and> validateCardUsable (ex_card Active 100 100) 1000 = Inr () \<and> (0::int) < 200"
    by (simp add: ex_card_def validateCardUsable_def)
  show ?thesis
    using redeem_over_balance_rejected [OF a, of "ex_store Active" 10 "Inl UNAUTHORIZED" 1 1000 3
        ex_ctx "\<lambda>x. x" "''c0de''" "''7rack''"] g c t u
    by simp
qed

section \<open>Operations on cards that are not usable\<close>

text \<open>
  C8 fails for \<^verbatim>\<open>adjust\<close> and \<^verbatim>\<open>refund\<close>, which never call
  \<^verbatim>\<open>validateCardUsable\<close>: on a suspended card an adjustment of 50 is committed, and on
  a cancelled card the refund of entry 12 is committed.
\<close>

theorem adjust_refund_ignore_card_status:
  "validateCardUsable (ex_card Suspended 100 100) 1000 = Inl CARD_INACTIVE
   \<and> \<not> isl (fst (adjust (ex_store Suspended) (Inr ex_ctx) 1 10 50 1000))
   \<and> balanceOf (ex_store Suspended) 10 = Some 100
   \<and> balanceOf (snd (adjust (ex_store Suspended) (Inr ex_ctx) 1 10 50 1000)) 10 = Some 150
   \<and> length (transactions (snd (adjust (ex_store Suspended) (Inr ex_ctx) 1 10 50 1000))) = 1
   \<and> validateCardUsable (ex_card Cancelled 2500 2000) 1000 = Inl CARD_INACTIVE
   \<and> \<not> isl (fst (refund (ex_ledger Cancelled) (Inr ex_ctx) 1 12 1000))
   \<and> balanceOf (ex_ledger Cancelled) 10 = Some 2000
   \<and> balanceOf (snd (refund (ex_ledger Cancelled) (Inr ex_ctx) 1 12 1000)) 10 = Some 3000
   \<and> length (transactions (snd (refund (ex_ledger Cancelled) (Inr ex_ctx) 1 12 1000))) = 3"
  by (simp add: adjust_def refund_def recordTransaction_def insertTransaction_def
      ex_store_def ex_ledger_def ex_card_def ex_entry_def ex_ctx_def db_get_def db_patch_def
      balanceOf_def validateCardUsable_def setting_def DEFAULT_MAX_CARD_BALANCE_def Let_def)

section \<open>The card status state machine\<close>

text \<open>
  C7 fails: \<^verbatim>\<open>updateStatus\<close> refuses only the direct steps cancelled to active and
  expired to active. A cancelled card can be suspended, and the suspended card can then
  be activated; the API twin behaves the same.
\<close>

theorem cancelled_card_reactivated:
  "map_option status (db_get card_id (cards (ex_store Cancelled)) 10) = Some Cancelled
   \<and> fst (updateStatus (ex_store Cancelled) (Inr ex_ctx) 1 10 To_active 1000)
       = Inl VALIDATION_ERROR
   \<and> map_option (map_option status)
        (projr_opt (fst (updateStatus (ex_store Cancelled) (Inr ex_ctx) 1 10 To_suspended 1000)))
       = Some (Some Suspended)
   \<and> map_option (map_option status)
        (projr_opt (fst (updateStatus
           (snd (updateStatus (ex_store Cancelled) (Inr ex_ctx) 1 10 To_suspended 1000))
           (Inr ex_ctx) 1 10 To_active 2000)))
       = Some (Some Active)
   \<and> map_option (map_option status)
        (projr_opt (fst (apiUpdateStatus
           (snd (apiUpdateStatus (ex_store Expired) 1 10 To_suspended 1000))
           1 10 To_active 2000)))
       = Some (Some Active)"
  by (simp add: updateStatus_def apiUpdateStatus_def updateTail_def ex_store_def ex_card_def
      db_get_def db_patch_def projr_opt_def Let_def)

end
